theory Spec2Isabelle
  imports Complex_Main "HOL-Library.Sublist"
begin

section \<open>Python exceptions\<close>

text \<open>
  Every \<^verbatim>\<open>raise\<close> of the source, and every exception an external collaborator
  (Selenium, BeautifulSoup, redis-py, the classifier) may throw, is a value of \<open>exn\<close>.
  All of them are subclasses of Python's \<^verbatim>\<open>Exception\<close>, which is what the
  \<^verbatim>\<open>except Exception\<close> clauses of the source catch.
  \<open>GetProductsError e\<close> is the exception \<^verbatim>\<open>get_products\<close> builds around a caught \<open>e\<close>.
\<close>

datatype exn =
    AttributeError
  | TypeError
  | KeyError
  | ValueError
  | OverflowError
  | DriverError
  | RedisError
  | ClassifierError
  | PlainException
  | GetProductsError exn

section \<open>The retry decorator (helper\_functions.py)\<close>

text \<open>
  \<^verbatim>\<open>
  def retry(max_retries: int):
      def decorator(func):
          def wrapper(*args, **kwargs):
              for retry_count in range(max_retries):
                  try:
                      return func(*args, **kwargs)
                  except Exception as e:
                      if retry_count < max_retries - 1:
                          wait_time = 2 ** retry_count
                          warning(...)
                          sleep(wait_time)
                      else:
                          return None
  \<close>
  The wrapped operation is a state transformer: it returns a value or raises, and leaves
  the world in a new state either way. The model threads that state through the
  attempts and records two observations next to the wrapper's return value: how many
  times the operation was invoked, and the arguments of the \<^verbatim>\<open>sleep\<close> calls in order.
  The wrapper returns the operation's value (\<open>Some v\<close>) or Python's \<^verbatim>\<open>None\<close>.
\<close>

record ('a, 's) retry_outcome =
  returned :: "'a option"
  final_state :: 's
  invocations :: nat
  sleeps :: "int list"

definition py_range :: "int \<Rightarrow> int list" where
  "py_range n = map int [0..<nat n]"

fun retry_loop ::
  "int \<Rightarrow> ('s \<Rightarrow> (exn + 'a) \<times> 's) \<Rightarrow> int list \<Rightarrow> 's \<Rightarrow> nat \<Rightarrow> int list \<Rightarrow> ('a, 's) retry_outcome"
where
  "retry_loop max_retries func [] s n ws =
     \<lparr>returned = None, final_state = s, invocations = n, sleeps = ws\<rparr>"
| "retry_loop max_retries func (retry_count # rest) s n ws =
     (case func s of
        (Inr v, s') \<Rightarrow> \<lparr>returned = Some v, final_state = s', invocations = Suc n, sleeps = ws\<rparr>
      | (Inl e, s') \<Rightarrow>
          if retry_count < max_retries - 1
          then retry_loop max_retries func rest s' (Suc n) (ws @ [2 ^ nat retry_count])
          else \<lparr>returned = None, final_state = s', invocations = Suc n, sleeps = ws\<rparr>)"

definition retry :: "int \<Rightarrow> ('s \<Rightarrow> (exn + 'a) \<times> 's) \<Rightarrow> 's \<Rightarrow> ('a, 's) retry_outcome" where
  "retry max_retries func s = retry_loop max_retries func (py_range max_retries) s 0 []"

text \<open>The state in which the \<open>i\<close>-th invocation (counted from 0) of the operation starts.\<close>

definition state_before :: "('s \<Rightarrow> (exn + 'a) \<times> 's) \<Rightarrow> 's \<Rightarrow> nat \<Rightarrow> 's" where
  "state_before func s i = ((\<lambda>t. snd (func t)) ^^ i) s"

definition raises_at :: "('s \<Rightarrow> (exn + 'a) \<times> 's) \<Rightarrow> 's \<Rightarrow> nat \<Rightarrow> bool" where
  "raises_at func s i = isl (fst (func (state_before func s i)))"

section \<open>Strings\<close>

text \<open>
  A Python \<^verbatim>\<open>str\<close> is modelled as its UTF-8 byte sequence (\<open>string\<close>, a list of 8-bit
  characters). Every pattern the source searches for or removes is either ASCII or one
  whole code point, so searching and removing on bytes agrees with Python's on code points.
\<close>

definition is_alnum :: "char \<Rightarrow> bool" where
  \<comment> \<open>the regex class \<^verbatim>\<open>[a-zA-Z0-9]\<close>\<close>
  "is_alnum c =
     (let n = (of_char c :: nat)
      in (97 \<le> n \<and> n \<le> 122) \<or> (65 \<le> n \<and> n \<le> 90) \<or> (48 \<le> n \<and> n \<le> 57))"

definition hex_val :: "char \<Rightarrow> nat option" where
  \<comment> \<open>the value of a hexadecimal digit, either case\<close>
  "hex_val c =
     (let n = (of_char c :: nat)
      in if 48 \<le> n \<and> n \<le> 57 then Some (n - 48)
         else if 65 \<le> n \<and> n \<le> 70 then Some (n - 55)
         else if 97 \<le> n \<and> n \<le> 102 then Some (n - 87)
         else None)"

text \<open>
  \<^verbatim>\<open>urllib.parse.unquote\<close>: every \<^verbatim>\<open>%XX\<close> with two hexadecimal digits becomes the byte
  \<open>XX\<close>; a \<^verbatim>\<open>%\<close> not followed by two hexadecimal digits stays. Python then decodes the
  bytes as UTF-8 and puts U+FFFD in place of a malformed sequence; the model keeps the
  bytes. Both forms agree on every ASCII byte and on the order of the ASCII bytes, and the
  source only searches the result for an ASCII pattern.
\<close>

fun unquote :: "string \<Rightarrow> string" where
  "unquote (c # h # l # rest) =
     (if c = CHR ''%''
      then (case (hex_val h, hex_val l) of
              (Some a, Some b) \<Rightarrow> char_of (16 * a + b) # unquote rest
            | _ \<Rightarrow> c # unquote (h # l # rest))
      else c # unquote (h # l # rest))"
| "unquote cs = cs"

text \<open>
  \<^verbatim>\<open>re.search(r'/dp/([a-zA-Z0-9]{10})', s)\<close>: the leftmost position where \<^verbatim>\<open>/dp/\<close> is
  followed by ten characters of the class; the result is group 1, those ten characters.
\<close>

definition dp_match :: "string \<Rightarrow> string option" where
  \<comment> \<open>the pattern matched at the start of the string: group 1, if it matches there\<close>
  "dp_match s =
     (let g = take 10 (drop 4 s)
      in if prefix ''/dp/'' s \<and> length g = 10 \<and> list_all is_alnum g then Some g else None)"

fun search_dp :: "string \<Rightarrow> string option" where
  "search_dp [] = None"
| "search_dp (c # cs) =
     (case dp_match (c # cs) of Some g \<Rightarrow> Some g | None \<Rightarrow> search_dp cs)"

definition contains_dp_id :: "string \<Rightarrow> bool" where
  \<comment> \<open>the string contains \<^verbatim>\<open>/dp/\<close> followed by ten characters of the class\<close>
  "contains_dp_id s =
     (\<exists>pre g post. s = pre @ ''/dp/'' @ g @ post \<and> length g = 10 \<and> list_all is_alnum g)"

definition dp_id_at :: "string \<Rightarrow> nat \<Rightarrow> string \<Rightarrow> bool" where
  \<comment> \<open>at position \<open>i\<close> the string has \<^verbatim>\<open>/dp/\<close> followed by the ten characters \<open>g\<close> of the class\<close>
  "dp_id_at s i g =
     (\<exists>pre post. s = pre @ ''/dp/'' @ g @ post \<and> length pre = i \<and>
        length g = 10 \<and> list_all is_alnum g)"

definition leftmost_dp_id :: "string \<Rightarrow> string \<Rightarrow> bool" where
  \<comment> \<open>\<open>g\<close> is the ten characters after the first \<^verbatim>\<open>/dp/\<close> that ten characters of the class follow\<close>
  "leftmost_dp_id s g = (\<exists>i. dp_id_at s i g \<and> (\<forall>j g'. dp_id_at s j g' \<longrightarrow> i \<le> j))"

text \<open>\<^verbatim>\<open>s.replace(old, "")\<close> with a non-empty \<open>old\<close>: occurrences are removed left to right.\<close>

fun remove_all :: "string \<Rightarrow> string \<Rightarrow> string" where
  "remove_all old [] = []"
| "remove_all old (c # cs) =
     (if old \<noteq> [] \<and> prefix old (c # cs)
      then remove_all old (drop (length old - 1) cs)
      else c # remove_all old cs)"

definition split_first :: "char \<Rightarrow> string \<Rightarrow> string" where
  \<comment> \<open>\<^verbatim>\<open>s.split(sep)[0]\<close> for a one-character separator\<close>
  "split_first sep s = takeWhile (\<lambda>c. c \<noteq> sep) s"

definition rupee :: string where
  \<comment> \<open>the UTF-8 encoding of U+20B9, the rupee sign\<close>
  "rupee = [CHR 0xE2, CHR 0x82, CHR 0xB9]"

section \<open>Configuration and session state\<close>

text \<open>
  Modelled from the spec: the enumeration \<^verbatim>\<open>Websites\<close> is declared in \<^verbatim>\<open>lib/types\<close>,
  a module that is not among the sources. The spec gives its members as AMAZON, FLIPKART,
  MYNTRA and AJIO, and \<^verbatim>\<open>lib/const.py\<close> uses exactly these four.
\<close>

datatype Websites = AMAZON | FLIPKART | MYNTRA | AJIO

text \<open>
  The constants that \<^verbatim>\<open>selenium_helper.py\<close> imports from \<^verbatim>\<open>constants/product\<close> and
  \<^verbatim>\<open>constants/css_selectors\<close> are not among the sources either; they are the fields of
  a configuration record that every function takes. A Python \<^verbatim>\<open>dict\<close> is an association
  list, in insertion order (the order in which \<^verbatim>\<open>.items()\<close> yields).
\<close>

record config =
  MAX_PRODUCTS_PER_WEBSITE :: int
  PRICE_LIMITS :: "(string \<times> int) list"
  REQUIRED_PRODUCT_KEYS :: "string list"
  PRODUCT_DETAILS :: "(Websites \<times> (string \<times> string list) list) list"
  PRODUCT_CARDS :: "(Websites \<times> string) list"
  PRODUCT_CONTAINER :: "(Websites \<times> string) list"
  NEXT_BUTTON :: "(Websites \<times> string) list"
  AMAZON_AFFILIATE_ID :: string
  FLIPKART_AFFILIATE_ID :: string
  MYNTRA_AFFILIATE_ID :: string

definition subscript :: "('k \<times> 'v) list \<Rightarrow> 'k \<Rightarrow> exn + 'v" where
  \<comment> \<open>\<^verbatim>\<open>d[k]\<close> on a dict: \<^verbatim>\<open>KeyError\<close> when the key is absent\<close>
  "subscript d k = (case map_of d k of None \<Rightarrow> Inl KeyError | Some v \<Rightarrow> Inr v)"

definition subscript_opt :: "('k \<times> 'v) list \<Rightarrow> 'k option \<Rightarrow> exn + 'v" where
  \<comment> \<open>\<^verbatim>\<open>d[k]\<close> where \<open>k\<close> may be \<^verbatim>\<open>None\<close>, which is not a key of any table of the source\<close>
  "subscript_opt d k = (case k of None \<Rightarrow> Inl KeyError | Some k' \<Rightarrow> subscript d k')"

section \<open>The affiliate rewrite (selenium\_helper.py)\<close>

definition extract_amazon_product_id :: "string \<Rightarrow> string option" where
  "extract_amazon_product_id url = search_dp (unquote url)"

text \<open>
  \<^verbatim>\<open>
  match self.website_name:
      case Websites.AMAZON:
          product_id = extract_amazon_product_id(url)
          short_url = f"https://www.amazon.in/dp/{product_id}/{AMAZON_AFFILIATE_ID}" \
              if product_id is not None else None
          return short_url
      case Websites.FLIPKART:
          short_url = f"https://www.flipkart.com{url.split("?")[0]}/{FLIPKART_AFFILIATE_ID}"
          return short_url
      case Websites.MYNTRA:
          return f"https://www.myntra.com/{url}/{MYNTRA_AFFILIATE_ID}"
      case _:
          raise ValueError("Invalid website specified")
  \<close>
  \<open>website_name\<close> is \<^verbatim>\<open>None\<close> until \<^verbatim>\<open>get_products\<close> sets it. The result is a string
  or \<^verbatim>\<open>None\<close>.
\<close>

fun short_url_with_affiliate_code :: "config \<Rightarrow> Websites option \<Rightarrow> string \<Rightarrow> exn + string option" where
  "short_url_with_affiliate_code cfg (Some AMAZON) url =
     (case extract_amazon_product_id url of
        Some product_id \<Rightarrow>
          Inr (Some (''https://www.amazon.in/dp/'' @ product_id @ ''/'' @ AMAZON_AFFILIATE_ID cfg))
      | None \<Rightarrow> Inr None)"
| "short_url_with_affiliate_code cfg (Some FLIPKART) url =
     Inr (Some (''https://www.flipkart.com'' @ split_first CHR ''?'' url @ ''/'' @ FLIPKART_AFFILIATE_ID cfg))"
| "short_url_with_affiliate_code cfg (Some MYNTRA) url =
     Inr (Some (''https://www.myntra.com/'' @ url @ ''/'' @ MYNTRA_AFFILIATE_ID cfg))"
| "short_url_with_affiliate_code cfg _ url = Inl ValueError"

section \<open>The Redis server, as far as redis.py uses it\<close>

text \<open>
  The server is an external collaborator; the model keeps what the commands used by the
  source can observe. A keyspace maps a key to a set (its members, without repetition)
  and an optional expiry instant. Time is a number of seconds; a key whose expiry instant
  has been reached does not exist any more for any command. A server that cannot be
  reached answers every command with an error. \<^verbatim>\<open>SCAN\<close> walks the live keys in batches:
  the cursor is the position reached, a batch holds at most \<open>scan_count + 1\<close> keys of
  which the ones matching the pattern are returned, and the cursor returned is 0 when
  the walk is complete. The pattern is the set of keys it matches.
\<close>

type_synonym keyspace = "(string \<times> string list \<times> nat option) list"

record redis_server =
  keyspace :: keyspace
  reachable :: bool
  scan_count :: nat

definition live :: "nat \<Rightarrow> string \<times> string list \<times> nat option \<Rightarrow> bool" where
  "live now e = (case snd (snd e) of None \<Rightarrow> True | Some t \<Rightarrow> now < t)"

definition live_keyspace :: "redis_server \<Rightarrow> nat \<Rightarrow> keyspace" where
  "live_keyspace srv now = filter (live now) (keyspace srv)"

definition smembers :: "redis_server \<Rightarrow> nat \<Rightarrow> string \<Rightarrow> string list" where
  "smembers srv now key =
     (case map_of (live_keyspace srv now) key of None \<Rightarrow> [] | Some (ms, ex) \<Rightarrow> ms)"

definition sismember :: "redis_server \<Rightarrow> nat \<Rightarrow> string \<Rightarrow> string option \<Rightarrow> exn + bool" where
  \<comment> \<open>redis-py refuses to encode \<^verbatim>\<open>None\<close> as a member (\<^verbatim>\<open>DataError\<close>)\<close>
  "sismember srv now key member =
     (case member of
        None \<Rightarrow> Inl RedisError
      | Some m \<Rightarrow> if reachable srv then Inr (m \<in> set (smembers srv now key)) else Inl RedisError)"

fun put_key :: "string \<Rightarrow> string list \<times> nat option \<Rightarrow> keyspace \<Rightarrow> keyspace" where
  "put_key key v [] = [(key, v)]"
| "put_key key v ((k, w) # rest) = (if k = key then (key, v) # rest else (k, w) # put_key key v rest)"

definition sadd :: "redis_server \<Rightarrow> nat \<Rightarrow> string \<Rightarrow> string list \<Rightarrow> (exn + nat) \<times> redis_server" where
  \<comment> \<open>\<^verbatim>\<open>SADD key\<close> without a member is an error; the reply is the number of new members\<close>
  "sadd srv now key members =
     (if \<not> reachable srv \<or> members = [] then (Inl RedisError, srv)
      else
        let ks = live_keyspace srv now;
            (old, ex) = (case map_of ks key of None \<Rightarrow> ([], None) | Some v \<Rightarrow> v);
            new = filter (\<lambda>m. m \<notin> set old) (remdups members)
        in (Inr (length new), srv\<lparr>keyspace := put_key key (old @ new, ex) ks\<rparr>))"

definition expire :: "redis_server \<Rightarrow> nat \<Rightarrow> string \<Rightarrow> int \<Rightarrow> (exn + bool) \<times> redis_server" where
  \<comment> \<open>a timeout that is not positive deletes the key\<close>
  "expire srv now key seconds =
     (if \<not> reachable srv then (Inl RedisError, srv)
      else
        let ks = live_keyspace srv now
        in case map_of ks key of
             None \<Rightarrow> (Inr False, srv\<lparr>keyspace := ks\<rparr>)
           | Some (ms, ex) \<Rightarrow>
               if seconds \<le> 0
               then (Inr True, srv\<lparr>keyspace := filter (\<lambda>e. fst e \<noteq> key) ks\<rparr>)
               else (Inr True, srv\<lparr>keyspace := put_key key (ms, Some (now + nat seconds)) ks\<rparr>))"

definition scan :: "redis_server \<Rightarrow> nat \<Rightarrow> nat \<Rightarrow> (string \<Rightarrow> bool) \<Rightarrow> exn + nat \<times> string list" where
  "scan srv now cursor pattern =
     (if \<not> reachable srv then Inl RedisError
      else
        let keys = map fst (live_keyspace srv now);
            batch = take (Suc (scan_count srv)) (drop cursor keys);
            next = (if length keys \<le> cursor + Suc (scan_count srv) then 0
                    else cursor + Suc (scan_count srv))
        in Inr (next, filter pattern batch))"

definition pipeline_sismember :: "redis_server \<Rightarrow> nat \<Rightarrow> string list \<Rightarrow> string \<Rightarrow> exn + bool list" where
  \<comment> \<open>\<^verbatim>\<open>pipe.sismember(key, url)\<close> for each key, then \<^verbatim>\<open>pipe.execute()\<close>\<close>
  "pipeline_sismember srv now keys url =
     (if reachable srv then Inr (map (\<lambda>key. url \<in> set (smembers srv now key)) keys)
      else Inl RedisError)"

section \<open>RedisDB (redis.py)\<close>

text \<open>
  \<open>client\<close> is \<^verbatim>\<open>None\<close> before \<^verbatim>\<open>__enter__\<close> and after \<^verbatim>\<open>__exit__\<close>; otherwise it is the
  connection, through which the server is seen and changed. Every method takes the instant
  at which it runs.
  \<^verbatim>\<open>
  def redis_call(func):
      def wrapper(self, *args, **kwargs):
          if not self.client:
              return None
          try:
              return func(self, *args, **kwargs)
          except RedisError as e:
              return None
          except Exception as e:
              return None
  \<close>
\<close>

record RedisDB =
  client :: "redis_server option"

definition redis_call :: "(redis_server \<Rightarrow> (exn + 'a) \<times> redis_server) \<Rightarrow> RedisDB \<Rightarrow> 'a option \<times> RedisDB" where
  "redis_call func self =
     (case client self of
        None \<Rightarrow> (None, self)
      | Some srv \<Rightarrow>
          (case func srv of
             (Inl e, srv') \<Rightarrow> (None, self\<lparr>client := Some srv'\<rparr>)
           | (Inr v, srv') \<Rightarrow> (Some v, self\<lparr>client := Some srv'\<rparr>)))"

definition is_member :: "RedisDB \<Rightarrow> nat \<Rightarrow> string \<Rightarrow> string option \<Rightarrow> bool option" where
  "is_member self now key member =
     fst (redis_call (\<lambda>srv.
        (case sismember srv now key member of
           Inl e \<Rightarrow> Inl e
         | Inr b \<Rightarrow> if b then Inr True else Inr False, srv)) self)"

datatype member_arg = Str string | StrList "string list"

definition add_to_set :: "RedisDB \<Rightarrow> nat \<Rightarrow> string \<Rightarrow> member_arg \<Rightarrow> int option \<Rightarrow> nat option \<times> RedisDB" where
  \<comment> \<open>\<^verbatim>\<open>if expire_time:\<close> holds for an integer other than 0\<close>
  "add_to_set self now key member expire_time =
     redis_call (\<lambda>srv.
        let members = (case member of Str m \<Rightarrow> [m] | StrList ms \<Rightarrow> ms)
        in case sadd srv now key members of
             (Inl e, srv') \<Rightarrow> (Inl e, srv')
           | (Inr result, srv') \<Rightarrow>
               (case expire_time of
                  None \<Rightarrow> (Inr result, srv')
                | Some t \<Rightarrow>
                    if t = 0 then (Inr result, srv')
                    else (case expire srv' now key t of
                            (Inl e, srv'') \<Rightarrow> (Inl e, srv'')
                          | (Inr b, srv'') \<Rightarrow> (Inr result, srv'')))) self"

text \<open>
  \<^verbatim>\<open>
  cursor = 0
  while True:
      cursor, keys = self.client.scan(cursor=cursor, match=pattern)
      if not keys:
          if cursor == 0:
              break
          continue
      pipe = self.client.pipeline()
      for key in keys:
          pipe.sismember(key, url)
      results = pipe.execute()
      if any(results):
          return True
      if cursor == 0:
          break
  return False
  \<close>
\<close>

function is_url_cached_loop :: "redis_server \<Rightarrow> nat \<Rightarrow> (string \<Rightarrow> bool) \<Rightarrow> string \<Rightarrow> nat \<Rightarrow> exn + bool" where
  "is_url_cached_loop srv now pattern url cursor =
     (case scan srv now cursor pattern of
        Inl e \<Rightarrow> Inl e
      | Inr (cursor', keys) \<Rightarrow>
          if keys = []
          then (if cursor' = 0 then Inr False
                else is_url_cached_loop srv now pattern url cursor')
          else (case pipeline_sismember srv now keys url of
                  Inl e \<Rightarrow> Inl e
                | Inr results \<Rightarrow>
                    if list_ex (\<lambda>r. r) results then Inr True
                    else if cursor' = 0 then Inr False
                    else is_url_cached_loop srv now pattern url cursor'))"
  by pat_completeness auto
termination
proof (relation "measure (\<lambda>(srv, now, pattern, url, cursor). length (live_keyspace srv now) - cursor)")
  show "wf (measure (\<lambda>(srv, now, pattern, url, cursor). length (live_keyspace srv now) - cursor))"
    by simp
next
  fix srv now pattern url cursor x2 cursor' keys
  assume "scan srv now cursor pattern = Inr x2" and "(cursor', keys) = x2" and "cursor' \<noteq> 0"
  then show "((srv, now, pattern, url, cursor'), (srv, now, pattern, url, cursor))
      \<in> measure (\<lambda>(srv, now, pattern, url, cursor). length (live_keyspace srv now) - cursor)"
    by (auto simp: scan_def Let_def split: if_splits)
next
  fix srv now pattern url cursor x2 cursor' keys x2a
  assume "scan srv now cursor pattern = Inr x2" and "(cursor', keys) = x2" and "cursor' \<noteq> 0"
  then show "((srv, now, pattern, url, cursor'), (srv, now, pattern, url, cursor))
      \<in> measure (\<lambda>(srv, now, pattern, url, cursor). length (live_keyspace srv now) - cursor)"
    by (auto simp: scan_def Let_def split: if_splits)
qed

declare is_url_cached_loop.simps [simp del]

definition is_url_cached :: "RedisDB \<Rightarrow> nat \<Rightarrow> string \<Rightarrow> (string \<Rightarrow> bool) \<Rightarrow> bool option" where
  "is_url_cached self now url pattern =
     fst (redis_call (\<lambda>srv. (is_url_cached_loop srv now pattern url 0, srv)) self)"

text \<open>
  The default pattern is \<^verbatim>\<open>f"{PRODUCT_URL_CACHE_KEY}*"\<close>. The constant is declared in
  \<^verbatim>\<open>constants/redis_key\<close>, which is not among the sources, and is a parameter here;
  for a constant without glob metacharacters the pattern matches the keys that start
  with it.
\<close>

definition default_pattern :: "string \<Rightarrow> string \<Rightarrow> bool" where
  "default_pattern PRODUCT_URL_CACHE_KEY key = prefix PRODUCT_URL_CACHE_KEY key"

definition live_keys :: "RedisDB \<Rightarrow> nat \<Rightarrow> string list" where
  \<comment> \<open>the keys that exist at an instant, as a connected client sees them\<close>
  "live_keys self now =
     (case client self of None \<Rightarrow> [] | Some srv \<Rightarrow> map fst (live_keyspace srv now))"

section \<open>The cache key (helper\_functions.py)\<close>





section \<open>External collaborators of the crawl session\<close>

text \<open>
  A BeautifulSoup tag, as far as the source queries it: its stripped text
  (\<^verbatim>\<open>get_text(strip=True)\<close>), its attributes, and its answers to \<^verbatim>\<open>select_one\<close> and
  \<^verbatim>\<open>select\<close> for each CSS selector string. The CSS engine is external; a tag carries the
  table of its answers.
\<close>

datatype tag =
  Tag (get_text: string)
      (attrs: "(string \<times> string) list")
      (select_one_table: "(string \<times> tag) list")
      (select_table: "(string \<times> tag list) list")

definition select_one :: "tag \<Rightarrow> string \<Rightarrow> tag option" where
  "select_one t selector = map_of (select_one_table t) selector"

definition select :: "tag \<Rightarrow> string \<Rightarrow> tag list" where
  "select t selector = (case map_of (select_table t) selector of None \<Rightarrow> [] | Some ts \<Rightarrow> ts)"

fun join :: "string \<Rightarrow> string list \<Rightarrow> string" where
  \<comment> \<open>\<^verbatim>\<open>sep.join(xs)\<close>\<close>
  "join sep [] = []"
| "join sep [x] = x"
| "join sep (x # y # ys) = x @ sep @ join sep (y # ys)"

text \<open>
  A Python value stored in a product record: \<^verbatim>\<open>None\<close>, an \<^verbatim>\<open>int\<close>, a \<^verbatim>\<open>float\<close> or a
  \<^verbatim>\<open>str\<close>. Floats are opaque (\<open>'f\<close>): the source only builds them with \<^verbatim>\<open>float(s)\<close> and
  truncates them with \<^verbatim>\<open>int(x)\<close>, and both belong to the Python runtime.
\<close>

datatype 'f pyval = VNone | VInt int | VFloat 'f | VStr string

type_synonym 'f product = "(string \<times> 'f pyval) list"

text \<open>
  The world outside the session. \<open>'b\<close> is the state of the browser behind the Selenium
  driver. A driver command returns the exception it raised, if any, and the browser
  state it leaves. \<open>predict_deal\<close> is the classifier together with the read of
  \<^verbatim>\<open>prediction['prediction']\<close>. \<open>clock\<close> is the instant at which the session reads the cache.
\<close>

record ('f, 'b) world =
  py_float :: "string \<Rightarrow> exn + 'f"
  py_int :: "'f \<Rightarrow> exn + int"
  predict_deal :: "'f product \<Rightarrow> exn + string"
  driver_get :: "string \<Rightarrow> 'b \<Rightarrow> exn option \<times> 'b"
  wait_until_present :: "string \<Rightarrow> 'b \<Rightarrow> exn option \<times> 'b"
  page_source :: "'b \<Rightarrow> exn + tag option"
  click_next :: "string \<Rightarrow> 'b \<Rightarrow> exn option \<times> 'b"
  clock :: nat

section \<open>SeleniumHelper (selenium\_helper.py)\<close>

text \<open>
  The fields of the object. \<^verbatim>\<open>__init__\<close> assigns \<^verbatim>\<open>redis\<close>, \<^verbatim>\<open>website_name\<close>, \<^verbatim>\<open>category\<close>,
  \<^verbatim>\<open>page_conter\<close>, \<^verbatim>\<open>product_urls\<close> and \<^verbatim>\<open>driver\<close>. \<^verbatim>\<open>fetch_product_container\<close> reads an
  attribute \<^verbatim>\<open>current_page\<close> that no method of the class assigns: \<open>current_page\<close> is
  \<open>None\<close> while the attribute does not exist and \<open>Some n\<close> once a caller has set it.
\<close>

record 'b SeleniumHelper =
  redis :: RedisDB
  website_name :: "Websites option"
  category :: "string option"
  page_conter :: int
  product_urls :: "string option list"
  current_page :: "int option"
  driver :: 'b

definition init :: "RedisDB \<Rightarrow> 'b \<Rightarrow> 'b SeleniumHelper" where
  "init r d = \<lparr>redis = r, website_name = None, category = None, page_conter = 1,
              product_urls = [], current_page = None, driver = d\<rparr>"

text \<open>
  \<^verbatim>\<open>
  if element_data is None:
      return None
  if selector == "product_url":
      return self.short_url_with_affiliate_code(element_data)
  match self.website_name:
      case Websites.AMAZON:
          if selector == "product_price" or selector == "product_discount":
              return int(float(element_data.replace(",", "").replace("\<rupee>", "")))
          elif selector == "product_rating":
              return float(element_data.split(" ")[0])
      case Websites.FLIPKART:
          if selector == "product_price" or selector == "product_discount":
              return int(float(element_data.replace(",", "").replace("\<rupee>", "")))
          elif selector == "product_rating":
              return float(element_data)
      case Websites.MYNTRA:
          if selector == "product_price" or selector == "product_discount":
              return int(float(element_data.replace("Rs.", "").replace(",", "")))
          elif selector == "product_rating":
              return float(element_data)
  \<close>
  where \<^verbatim>\<open>\<rupee>\<close> stands for the rupee sign. A path that reaches the end of the function
  returns \<^verbatim>\<open>None\<close>.
\<close>

definition int_of_float_text :: "('f, 'b) world \<Rightarrow> string \<Rightarrow> exn + 'f pyval" where
  \<comment> \<open>\<^verbatim>\<open>int(float(s))\<close>\<close>
  "int_of_float_text w s =
     (case py_float w s of
        Inl e \<Rightarrow> Inl e
      | Inr x \<Rightarrow> (case py_int w x of Inl e \<Rightarrow> Inl e | Inr n \<Rightarrow> Inr (VInt n)))"

definition float_of_text :: "('f, 'b) world \<Rightarrow> string \<Rightarrow> exn + 'f pyval" where
  \<comment> \<open>\<^verbatim>\<open>float(s)\<close>\<close>
  "float_of_text w s = (case py_float w s of Inl e \<Rightarrow> Inl e | Inr x \<Rightarrow> Inr (VFloat x))"

definition format_extracted_data ::
  "('f, 'b) world \<Rightarrow> config \<Rightarrow> 'b SeleniumHelper \<Rightarrow> string \<Rightarrow> string option \<Rightarrow> exn + 'f pyval"
where
  "format_extracted_data w cfg self selector element_data =
     (case element_data of
        None \<Rightarrow> Inr VNone
      | Some d \<Rightarrow>
          if selector = ''product_url''
          then (case short_url_with_affiliate_code cfg (website_name self) d of
                  Inl e \<Rightarrow> Inl e
                | Inr None \<Rightarrow> Inr VNone
                | Inr (Some u) \<Rightarrow> Inr (VStr u))
          else (case website_name self of
                  Some AMAZON \<Rightarrow>
                    if selector = ''product_price'' \<or> selector = ''product_discount''
                    then int_of_float_text w (remove_all rupee (remove_all '','' d))
                    else if selector = ''product_rating''
                    then float_of_text w (split_first CHR '' '' d)
                    else Inr VNone
                | Some FLIPKART \<Rightarrow>
                    if selector = ''product_price'' \<or> selector = ''product_discount''
                    then int_of_float_text w (remove_all rupee (remove_all '','' d))
                    else if selector = ''product_rating''
                    then float_of_text w d
                    else Inr VNone
                | Some MYNTRA \<Rightarrow>
                    if selector = ''product_price'' \<or> selector = ''product_discount''
                    then int_of_float_text w (remove_all '','' (remove_all ''Rs.'' d))
                    else if selector = ''product_rating''
                    then float_of_text w d
                    else Inr VNone
                | _ \<Rightarrow> Inr VNone))"

definition url_of_pyval :: "'f pyval \<Rightarrow> string option" where
  \<comment> \<open>the result of formatting a \<^verbatim>\<open>product_url\<close> is a string or \<^verbatim>\<open>None\<close>\<close>
  "url_of_pyval v = (case v of VStr u \<Rightarrow> Some u | _ \<Rightarrow> None)"

text \<open>
  \<^verbatim>\<open>
  def is_product_valid(self, price, url) -> bool:
      if price is None or url is None:
          return False
      price = price.get_text(strip=True)
      url = url["href"]
      product_price = self.format_extracted_data("product_price", price)
      product_url = self.format_extracted_data("product_url", url)
      if product_url in self.product_urls:
          return False
      if product_price <= PRICE_LIMITS[self.category]:
          PRODUCT_CACHE_KEY = f"product_url_cache"
          if self.redis.is_member(PRODUCT_CACHE_KEY, product_url):
              return False
          else:
              return True
      else:
          return False
  \<close>
  In \<^verbatim>\<open>product_price <= PRICE_LIMITS[self.category]\<close> the subscript is evaluated before the
  comparison, and comparing \<^verbatim>\<open>None\<close> with an integer raises \<^verbatim>\<open>TypeError\<close>.
\<close>

definition is_product_valid ::
  "('f, 'b) world \<Rightarrow> config \<Rightarrow> 'b SeleniumHelper \<Rightarrow> tag option \<Rightarrow> tag option \<Rightarrow> exn + bool"
where
  "is_product_valid w cfg self price url =
     (case (price, url) of
        (Some price_tag, Some url_tag) \<Rightarrow>
          (case subscript (attrs url_tag) ''href'' of
             Inl e \<Rightarrow> Inl e
           | Inr href \<Rightarrow>
               (case format_extracted_data w cfg self ''product_price'' (Some (get_text price_tag)) of
                  Inl e \<Rightarrow> Inl e
                | Inr product_price \<Rightarrow>
                    (case format_extracted_data w cfg self ''product_url'' (Some href) of
                       Inl e \<Rightarrow> Inl e
                     | Inr product_url \<Rightarrow>
                         if url_of_pyval product_url \<in> set (product_urls self) then Inr False
                         else (case subscript_opt (PRICE_LIMITS cfg) (category self) of
                                 Inl e \<Rightarrow> Inl e
                               | Inr limit \<Rightarrow>
                                   (case product_price of
                                      VInt p \<Rightarrow>
                                        if p \<le> limit
                                        then (if is_member (redis self) (clock w) ''product_url_cache''
                                                   (url_of_pyval product_url) = Some True
                                              then Inr False else Inr True)
                                        else Inr False
                                    | _ \<Rightarrow> Inl TypeError)))))
      | _ \<Rightarrow> Inr False)"

text \<open>
  \<^verbatim>\<open>
  @retry(3)
  def fetch_product_container(self, url: str, type) -> BeautifulSoup:
      if self.current_page <= 1 or type == "product":
          self.driver.get(url)
      WebDriverWait(self.driver, 10).until(EC.presence_of_element_located(
          (By.CSS_SELECTOR, " ".join([PRODUCT_CONTAINER[self.website_name],
                                      PRODUCT_CARDS[self.website_name]]))))
      sleep(uniform(1.5, 2.5))
      html = self.driver.page_source
      if html is None:
          raise Exception("Failed to retrieve HTML page content.")
      soup = BeautifulSoup(html, 'html.parser')
      main_container = soup.select_one(PRODUCT_CONTAINER[self.website_name])
      return main_container
  \<close>
  Reading \<^verbatim>\<open>self.current_page\<close> raises \<^verbatim>\<open>AttributeError\<close> while the attribute does not
  exist. \<open>page_source\<close> gives the parsed document, or \<open>None\<close> when the driver has no source.
\<close>

definition fetch_product_container_body ::
  "('f, 'b) world \<Rightarrow> config \<Rightarrow> string \<Rightarrow> string \<Rightarrow> 'b SeleniumHelper
     \<Rightarrow> (exn + tag option) \<times> 'b SeleniumHelper"
where
  "fetch_product_container_body w cfg url type self =
     (case current_page self of
        None \<Rightarrow> (Inl AttributeError, self)
      | Some cp \<Rightarrow>
          (case (if cp \<le> 1 \<or> type = ''product'' then driver_get w url (driver self)
                 else (None, driver self)) of
             (Some e, d1) \<Rightarrow> (Inl e, self\<lparr>driver := d1\<rparr>)
           | (None, d1) \<Rightarrow>
               (case subscript_opt (PRODUCT_CONTAINER cfg) (website_name self) of
                  Inl e \<Rightarrow> (Inl e, self\<lparr>driver := d1\<rparr>)
                | Inr container_selector \<Rightarrow>
                    (case subscript_opt (PRODUCT_CARDS cfg) (website_name self) of
                       Inl e \<Rightarrow> (Inl e, self\<lparr>driver := d1\<rparr>)
                     | Inr cards_selector \<Rightarrow>
                         (case wait_until_present w
                                 (join '' '' [container_selector, cards_selector]) d1 of
                            (Some e, d2) \<Rightarrow> (Inl e, self\<lparr>driver := d2\<rparr>)
                          | (None, d2) \<Rightarrow>
                              (case page_source w d2 of
                                 Inl e \<Rightarrow> (Inl e, self\<lparr>driver := d2\<rparr>)
                               | Inr None \<Rightarrow> (Inl PlainException, self\<lparr>driver := d2\<rparr>)
                               | Inr (Some soup) \<Rightarrow>
                                   (Inr (select_one soup container_selector),
                                    self\<lparr>driver := d2\<rparr>)))))))"

definition fetch_product_container ::
  "('f, 'b) world \<Rightarrow> config \<Rightarrow> 'b SeleniumHelper \<Rightarrow> string \<Rightarrow> string
     \<Rightarrow> tag option \<times> 'b SeleniumHelper"
where
  \<comment> \<open>the wrapper's \<^verbatim>\<open>None\<close> and a \<^verbatim>\<open>None\<close> returned by the body are the same value\<close>
  "fetch_product_container w cfg self url type =
     (let r = retry 3 (fetch_product_container_body w cfg url type) self
      in (case returned r of None \<Rightarrow> None | Some main_container \<Rightarrow> main_container,
          final_state r))"

text \<open>
  \<^verbatim>\<open>
  def get_flipkart_data(self, url=None):
      if self.website_name != Websites.FLIPKART or url is None:
          return None
      url = f"https://www.flipkart.com{url["href"].split("?")[0]}"
      main_container = self.fetch_product_container(url, "product")
      if main_container is None:
          return None
      return main_container
  \<close>
\<close>

definition get_flipkart_data ::
  "('f, 'b) world \<Rightarrow> config \<Rightarrow> 'b SeleniumHelper \<Rightarrow> tag option
     \<Rightarrow> (exn + tag option) \<times> 'b SeleniumHelper"
where
  "get_flipkart_data w cfg self url =
     (case url of
        None \<Rightarrow> (Inr None, self)
      | Some url_tag \<Rightarrow>
          if website_name self \<noteq> Some FLIPKART then (Inr None, self)
          else (case subscript (attrs url_tag) ''href'' of
                  Inl e \<Rightarrow> (Inl e, self)
                | Inr href \<Rightarrow>
                    (case fetch_product_container w cfg self
                            (''https://www.flipkart.com'' @ split_first CHR ''?'' href) ''product'' of
                       (main_container, self') \<Rightarrow> (Inr main_container, self'))))"

definition dict_set :: "('k \<times> 'v) list \<Rightarrow> 'k \<Rightarrow> 'v \<Rightarrow> ('k \<times> 'v) list" where
  \<comment> \<open>\<^verbatim>\<open>d[k] = v\<close>: a new key goes last, an old key keeps its place\<close>
  "dict_set d k v =
     (if k \<in> fst ` set d then map (\<lambda>(k', v'). if k' = k then (k', v) else (k', v')) d
      else d @ [(k, v)])"

definition dict_get :: "(string \<times> 'f pyval) list \<Rightarrow> string \<Rightarrow> 'f pyval" where
  \<comment> \<open>\<^verbatim>\<open>d.get(k)\<close>: \<^verbatim>\<open>None\<close> for an absent key\<close>
  "dict_get d k = (case map_of d k of None \<Rightarrow> VNone | Some v \<Rightarrow> v)"

text \<open>
  The loop over \<^verbatim>\<open>PRODUCT_DETAILS[self.website_name].items()\<close> that fills
  \<^verbatim>\<open>product_details\<close>:
  \<^verbatim>\<open>
  for key, selectors in PRODUCT_DETAILS[self.website_name].items():
      if self.website_name == Websites.FLIPKART:
          elements = flipkart_product_soup.select_one(" ,".join(selectors))
      else:
          elements = product_soup.select_one(" ,".join(selectors))
      if elements == None and not (self.website_name == Websites.FLIPKART and key == "product_url"):
          continue
      if key == "product_price" or key == "product_discount":
          price_data = elements.get_text(strip=True)
          product_details[key] = self.format_extracted_data(key, price_data)
      elif key == "product_image":
          product_details[key] = elements["src"]
      elif key == "product_rating":
          rating_text = elements.get_text(strip=True)
          product_details[key] = self.format_extracted_data(key, rating_text)
      elif key == "product_url":
          product_details[key] = self.format_extracted_data("product_url", product_url["href"])
      else:
          product_details[key] = elements.get_text(strip=True)
  \<close>
  Calling \<^verbatim>\<open>get_text\<close> on \<^verbatim>\<open>None\<close> raises \<^verbatim>\<open>AttributeError\<close>, subscripting \<^verbatim>\<open>None\<close> raises
  \<^verbatim>\<open>TypeError\<close>.
\<close>

definition text_of :: "tag option \<Rightarrow> exn + string" where
  "text_of elements = (case elements of None \<Rightarrow> Inl AttributeError | Some el \<Rightarrow> Inr (get_text el))"

definition attr_of :: "tag option \<Rightarrow> string \<Rightarrow> exn + string" where
  "attr_of elements a = (case elements of None \<Rightarrow> Inl TypeError | Some el \<Rightarrow> subscript (attrs el) a)"

definition detail_value ::
  "('f, 'b) world \<Rightarrow> config \<Rightarrow> 'b SeleniumHelper \<Rightarrow> tag option \<Rightarrow> string \<Rightarrow> tag option
     \<Rightarrow> exn + 'f pyval"
where
  \<comment> \<open>the value assigned to \<^verbatim>\<open>product_details[key]\<close>\<close>
  "detail_value w cfg self product_url key elements =
     (if key = ''product_price'' \<or> key = ''product_discount''
      then (case text_of elements of
              Inl e \<Rightarrow> Inl e
            | Inr price_data \<Rightarrow> format_extracted_data w cfg self key (Some price_data))
      else if key = ''product_image''
      then (case attr_of elements ''src'' of Inl e \<Rightarrow> Inl e | Inr src \<Rightarrow> Inr (VStr src))
      else if key = ''product_rating''
      then (case text_of elements of
              Inl e \<Rightarrow> Inl e
            | Inr rating_text \<Rightarrow> format_extracted_data w cfg self key (Some rating_text))
      else if key = ''product_url''
      then (case attr_of product_url ''href'' of
              Inl e \<Rightarrow> Inl e
            | Inr href \<Rightarrow> format_extracted_data w cfg self ''product_url'' (Some href))
      else (case text_of elements of Inl e \<Rightarrow> Inl e | Inr t \<Rightarrow> Inr (VStr t)))"

fun fill_product_details ::
  "('f, 'b) world \<Rightarrow> config \<Rightarrow> 'b SeleniumHelper \<Rightarrow> tag \<Rightarrow> tag \<Rightarrow> tag option
     \<Rightarrow> (string \<times> string list) list \<Rightarrow> 'f product \<Rightarrow> exn + 'f product"
where
  "fill_product_details w cfg self product_soup flipkart_product_soup product_url [] product_details =
     Inr product_details"
| "fill_product_details w cfg self product_soup flipkart_product_soup product_url
     ((key, selectors) # rest) product_details =
     (let elements =
        (if website_name self = Some FLIPKART
         then select_one flipkart_product_soup (join '' ,'' selectors)
         else select_one product_soup (join '' ,'' selectors))
      in if elements = None \<and> \<not> (website_name self = Some FLIPKART \<and> key = ''product_url'')
         then fill_product_details w cfg self product_soup flipkart_product_soup product_url
                rest product_details
         else (case detail_value w cfg self product_url key elements of
                 Inl e \<Rightarrow> Inl e
               | Inr v \<Rightarrow>
                   fill_product_details w cfg self product_soup flipkart_product_soup product_url
                     rest (dict_set product_details key v)))"

text \<open>
  One iteration of the loop over the product cards in \<^verbatim>\<open>extract_products_by_website\<close>:
  \<^verbatim>\<open>
  product_details: Product = {}
  product_url = product_soup.select_one(" ,".join(
      PRODUCT_DETAILS[self.website_name]['product_url']))
  product_price = product_soup.select_one(
      " ,".join(PRODUCT_DETAILS[self.website_name]["product_price"]))
  if not self.is_product_valid(product_price, product_url):
      continue
  flipkart_product_soup = self.get_flipkart_data(product_url)
  if flipkart_product_soup == None:
      continue
  for key, selectors in PRODUCT_DETAILS[self.website_name].items():
      ...
  if None in [product_details.get(key) for key in REQUIRED_PRODUCT_KEYS]:
      continue
  prediction = predict_deal(product_details)
  if prediction['prediction'] == "Best Deal":
      product_url = self.format_extracted_data("product_url", product_url["href"])
      self.product_urls.append(product_url)
      products.append(product_details)
  else:
      continue
  \<close>
  The result is the record appended to \<^verbatim>\<open>products\<close>, or \<open>None\<close> when the card is skipped.
\<close>

definition process_card ::
  "('f, 'b) world \<Rightarrow> config \<Rightarrow> 'b SeleniumHelper \<Rightarrow> tag
     \<Rightarrow> (exn + 'f product option) \<times> 'b SeleniumHelper"
where
  "process_card w cfg self product_soup =
     (case subscript_opt (PRODUCT_DETAILS cfg) (website_name self) of
        Inl e \<Rightarrow> (Inl e, self)
      | Inr details \<Rightarrow>
     (case subscript details ''product_url'' of
        Inl e \<Rightarrow> (Inl e, self)
      | Inr url_selectors \<Rightarrow>
     (case subscript details ''product_price'' of
        Inl e \<Rightarrow> (Inl e, self)
      | Inr price_selectors \<Rightarrow>
     (let product_url = select_one product_soup (join '' ,'' url_selectors);
          product_price = select_one product_soup (join '' ,'' price_selectors)
      in case is_product_valid w cfg self product_price product_url of
        Inl e \<Rightarrow> (Inl e, self)
      | Inr False \<Rightarrow> (Inr None, self)
      | Inr True \<Rightarrow>
     (case get_flipkart_data w cfg self product_url of
        (Inl e, self1) \<Rightarrow> (Inl e, self1)
      | (Inr None, self1) \<Rightarrow> (Inr None, self1)
      | (Inr (Some flipkart_product_soup), self1) \<Rightarrow>
     (case fill_product_details w cfg self1 product_soup flipkart_product_soup product_url
             details [] of
        Inl e \<Rightarrow> (Inl e, self1)
      | Inr product_details \<Rightarrow>
          if list_ex (\<lambda>key. dict_get product_details key = VNone) (REQUIRED_PRODUCT_KEYS cfg)
          then (Inr None, self1)
          else
     (case predict_deal w product_details of
        Inl e \<Rightarrow> (Inl e, self1)
      | Inr prediction \<Rightarrow>
          if prediction = ''Best Deal''
          then (case attr_of product_url ''href'' of
                  Inl e \<Rightarrow> (Inl e, self1)
                | Inr href \<Rightarrow>
                    (case format_extracted_data w cfg self1 ''product_url'' (Some href) of
                       Inl e \<Rightarrow> (Inl e, self1)
                     | Inr u \<Rightarrow>
                         (Inr (Some product_details),
                          self1\<lparr>product_urls := product_urls self1 @ [url_of_pyval u]\<rparr>)))
          else (Inr None, self1))))))))"

text \<open>
  The validity test of one card, as the card loop performs it: the elements handed to
  \<^verbatim>\<open>is_product_valid\<close> are the ones the selectors of \<^verbatim>\<open>product_price\<close> and of
  \<^verbatim>\<open>product_url\<close> find on the card.
  \<^verbatim>\<open>
  product_url = product_soup.select_one(" ,".join(
      PRODUCT_DETAILS[self.website_name]['product_url']))
  product_price = product_soup.select_one(
      " ,".join(PRODUCT_DETAILS[self.website_name]["product_price"]))
  if not self.is_product_valid(product_price, product_url):
      continue
  \<close>
\<close>

definition card_is_valid ::
  "('f, 'b) world \<Rightarrow> config \<Rightarrow> 'b SeleniumHelper \<Rightarrow> tag \<Rightarrow> exn + bool"
where
  "card_is_valid w cfg self product_soup =
     (case subscript_opt (PRODUCT_DETAILS cfg) (website_name self) of
        Inl e \<Rightarrow> Inl e
      | Inr details \<Rightarrow>
     (case subscript details ''product_url'' of
        Inl e \<Rightarrow> Inl e
      | Inr url_selectors \<Rightarrow>
     (case subscript details ''product_price'' of
        Inl e \<Rightarrow> Inl e
      | Inr price_selectors \<Rightarrow>
          is_product_valid w cfg self
            (select_one product_soup (join '' ,'' price_selectors))
            (select_one product_soup (join '' ,'' url_selectors)))))"

fun extract_cards ::
  "('f, 'b) world \<Rightarrow> config \<Rightarrow> tag list \<Rightarrow> 'b SeleniumHelper \<Rightarrow> 'f product list
     \<Rightarrow> (exn + 'f product list) \<times> 'b SeleniumHelper"
where
  "extract_cards w cfg [] self products = (Inr products, self)"
| "extract_cards w cfg (product_soup # rest) self products =
     (case process_card w cfg self product_soup of
        (Inl e, self') \<Rightarrow> (Inl e, self')
      | (Inr None, self') \<Rightarrow> extract_cards w cfg rest self' products
      | (Inr (Some product_details), self') \<Rightarrow>
          extract_cards w cfg rest self' (products @ [product_details]))"

text \<open>
  \<^verbatim>\<open>
  products: List[Product] = []
  product_cards = main_container.select(PRODUCT_CARDS[self.website_name])
  if not product_cards:
      return []
  for product_soup in product_cards:
      ...
  return products
  \<close>
\<close>

definition extract_products_by_website ::
  "('f, 'b) world \<Rightarrow> config \<Rightarrow> 'b SeleniumHelper \<Rightarrow> tag
     \<Rightarrow> (exn + 'f product list) \<times> 'b SeleniumHelper"
where
  "extract_products_by_website w cfg self main_container =
     (case subscript_opt (PRODUCT_CARDS cfg) (website_name self) of
        Inl e \<Rightarrow> (Inl e, self)
      | Inr cards_selector \<Rightarrow>
          (let product_cards = select main_container cards_selector
           in if product_cards = [] then (Inr [], self)
              else extract_cards w cfg product_cards self []))"

text \<open>
  \<^verbatim>\<open>
  def has_next_page():
      try:
          pass
      except:
          pass
  \<close>
  The method is declared without \<^verbatim>\<open>self\<close>, and \<^verbatim>\<open>get_products\<close> calls it as
  \<^verbatim>\<open>self.has_next_page()\<close>: the call raises \<^verbatim>\<open>TypeError\<close> before the body runs.
\<close>

definition has_next_page :: "exn + bool" where
  "has_next_page = Inl TypeError"

text \<open>
  \<^verbatim>\<open>
  def go_to_next_page(self):
      current_url = self.driver.current_url
      self.driver.find_element(By.CSS_SELECTOR, NEXT_BUTTON[self.website_name]).click()
      WebDriverWait(self.driver, 10).until(lambda d: d.current_url != current_url)
  \<close>
\<close>

definition go_to_next_page ::
  "('f, 'b) world \<Rightarrow> config \<Rightarrow> 'b SeleniumHelper \<Rightarrow> exn option \<times> 'b SeleniumHelper"
where
  "go_to_next_page w cfg self =
     (case subscript_opt (NEXT_BUTTON cfg) (website_name self) of
        Inl e \<Rightarrow> (Some e, self)
      | Inr selector \<Rightarrow>
          (case click_next w selector (driver self) of (e, d) \<Rightarrow> (e, self\<lparr>driver := d\<rparr>)))"

text \<open>
  \<^verbatim>\<open>
  def get_products(self, website_name, category, url):
      self.website_name = website_name
      self.category = category
      self.page_conter = 1
      self.product_urls = []
      products: List[Product] = []
      while len(products) >= MAX_PRODUCTS_PER_WEBSITE:
          try:
              main_container = self.fetch_product_container(url, "container")
              if main_container is None:
                  break
              extracted_products = self.extract_products_by_website(main_container)
              products.extend(extracted_products)
              if not self.has_next_page():
                  break
              self.go_to_next_page()
              self.page_conter += 1
          except Exception as e:
              raise Exception(f"Error occurred while getting products: {str(e)}")
      return products
  \<close>
  The loop may run for ever as far as its text goes, so the result is optional: \<open>None\<close>
  stands for a call that does not return.
\<close>

partial_function (option) get_products_loop ::
  "('f, 'b) world \<Rightarrow> config \<Rightarrow> string \<Rightarrow> 'b SeleniumHelper \<Rightarrow> 'f product list
     \<Rightarrow> ((exn + 'f product list) \<times> 'b SeleniumHelper) option"
where
  "get_products_loop w cfg url self products =
     (if int (length products) \<ge> MAX_PRODUCTS_PER_WEBSITE cfg
      then (case fetch_product_container w cfg self url ''container'' of
              (None, self1) \<Rightarrow> Some (Inr products, self1)
            | (Some main_container, self1) \<Rightarrow>
                (case extract_products_by_website w cfg self1 main_container of
                   (Inl e, self2) \<Rightarrow> Some (Inl (GetProductsError e), self2)
                 | (Inr extracted_products, self2) \<Rightarrow>
                     (case has_next_page of
                        Inl e \<Rightarrow> Some (Inl (GetProductsError e), self2)
                      | Inr next \<Rightarrow>
                          if \<not> next then Some (Inr (products @ extracted_products), self2)
                          else (case go_to_next_page w cfg self2 of
                                  (Some e, self3) \<Rightarrow> Some (Inl (GetProductsError e), self3)
                                | (None, self3) \<Rightarrow>
                                    get_products_loop w cfg url
                                      (self3\<lparr>page_conter := page_conter self3 + 1\<rparr>)
                                      (products @ extracted_products)))))
      else Some (Inr products, self))"

declare get_products_loop.simps [code]

definition get_products ::
  "('f, 'b) world \<Rightarrow> config \<Rightarrow> 'b SeleniumHelper \<Rightarrow> Websites \<Rightarrow> string \<Rightarrow> string
     \<Rightarrow> ((exn + 'f product list) \<times> 'b SeleniumHelper) option"
where
  "get_products w cfg self site cat url =
     get_products_loop w cfg url
       (self\<lparr>website_name := Some site, category := Some cat, page_conter := 1,
             product_urls := []\<rparr>) []"

section \<open>Observations on a session\<close>

definition product_url_of :: "'f product \<Rightarrow> string option" where
  \<comment> \<open>the URL field of a product record: \<^verbatim>\<open>product.get("product_url")\<close>\<close>
  "product_url_of product_details = url_of_pyval (dict_get product_details ''product_url'')"

definition same_session :: "'b SeleniumHelper \<Rightarrow> 'b SeleniumHelper \<Rightarrow> bool" where
  \<comment> \<open>two states of the object that differ at most in the state of the browser\<close>
  "same_session s s' = (\<exists>d. s' = s\<lparr>driver := d\<rparr>)"

section \<open>Example data\<close>

text \<open>
  Concrete values at which the theorems below are instantiated. The affiliate identifiers,
  the container and card selectors and the Amazon field selectors are those of
  \<^verbatim>\<open>lib/const.py\<close>; the ceiling of 2500 for \<^verbatim>\<open>t-shirt\<close> is the one of the spec's
  end-to-end example; the remaining values are chosen for the examples.
\<close>

definition example_config :: config where
  "example_config =
     \<lparr>MAX_PRODUCTS_PER_WEBSITE = 10,
      PRICE_LIMITS = [(''t-shirt'', 2500)],
      REQUIRED_PRODUCT_KEYS = [''product_name'', ''product_price'', ''product_discount'', ''product_url''],
      PRODUCT_DETAILS =
        [(AMAZON,
          [(''product_price'', [''span.a-price.a-text-price span.a-offscreen'']),
           (''product_name'', [''h2.a-size-base-plus.a-spacing-none'']),
           (''product_url'', [''a.a-link-normal'']),
           (''product_discount'', [''span.a-price-whole''])]),
         (FLIPKART,
          [(''product_price'', [''div.yRaY8j'']),
           (''product_name'', [''span.VU-ZEz'']),
           (''product_url'', [''a.CGtC98'']),
           (''product_discount'', [''div.Nx9bqj''])])],
      PRODUCT_CARDS =
        [(AMAZON, ''div.a-section.a-spacing-base''), (FLIPKART, ''div._1AtVbE div._2kHMtA'')],
      PRODUCT_CONTAINER =
        [(AMAZON, ''.s-main-slot.s-result-list''), (FLIPKART, ''div._1AtVbE div._2kHMtA'')],
      NEXT_BUTTON = [(AMAZON, ''a.s-pagination-next''), (FLIPKART, ''a._9QVEpD'')],
      AMAZON_AFFILIATE_ID = ''?tag=aladdinloot3-21'',
      FLIPKART_AFFILIATE_ID = ''?affid=admitad&affExtParam1=298614'',
      MYNTRA_AFFILIATE_ID = ''?utm_source=admitad&utm_medium=affiliate''\<rparr>"

text \<open>
  An example world. Floats are the integers they denote: \<^verbatim>\<open>float(s)\<close> succeeds on a
  non-empty string of decimal digits and raises \<^verbatim>\<open>ValueError\<close> on the other strings the
  examples use. The classifier answers \<^verbatim>\<open>Best Deal\<close> for every record. The browser state is
  the URL it shows; every page has the source \<open>example_document\<close> of its URL.
\<close>

fun parse_digits :: "string \<Rightarrow> nat \<Rightarrow> nat option" where
  "parse_digits [] acc = Some acc"
| "parse_digits (c # cs) acc =
     (let n = (of_char c :: nat)
      in if 48 \<le> n \<and> n \<le> 57 then parse_digits cs (10 * acc + (n - 48)) else None)"

definition example_float :: "string \<Rightarrow> exn + int" where
  "example_float s =
     (if s = [] then Inl ValueError
      else (case parse_digits s 0 of None \<Rightarrow> Inl ValueError | Some n \<Rightarrow> Inr (int n)))"

definition link :: "string \<Rightarrow> tag" where
  "link href = Tag [] [(''href'', href)] [] []"

definition text_element :: "string \<Rightarrow> tag" where
  "text_element t = Tag t [] [] []"

definition amazon_card :: "string \<Rightarrow> string \<Rightarrow> string \<Rightarrow> tag" where
  \<comment> \<open>a result card of an Amazon listing: listed price, selling price, link\<close>
  "amazon_card price discount href =
     Tag [] []
       [(''span.a-price.a-text-price span.a-offscreen'', text_element price),
        (''h2.a-size-base-plus.a-spacing-none'', text_element ''Cotton T-Shirt''),
        (''a.a-link-normal'', link href),
        (''span.a-price-whole'', text_element discount)]
       []"

definition flipkart_card :: "string \<Rightarrow> string \<Rightarrow> tag" where
  \<comment> \<open>a result card of a Flipkart listing: listed price, link\<close>
  "flipkart_card price href =
     Tag [] [] [(''div.yRaY8j'', text_element price), (''a.CGtC98'', link href)] []"

definition listing :: "string \<Rightarrow> string \<Rightarrow> tag list \<Rightarrow> tag" where
  \<comment> \<open>a document whose container, found by the first selector, holds the cards\<close>
  "listing container_selector cards_selector cards =
     Tag [] [] [(container_selector, Tag [] [] [] [(cards_selector, cards)])] []"

definition flipkart_product_page :: "string \<Rightarrow> string \<Rightarrow> string option \<Rightarrow> tag" where
  \<comment> \<open>a Flipkart product page: listed price, selling price, name if the page shows one\<close>
  "flipkart_product_page price discount name =
     Tag [] []
       [(''div._1AtVbE div._2kHMtA'',
         Tag [] []
           ([(''div.yRaY8j'', text_element price), (''div.Nx9bqj'', text_element discount)] @
            (case name of None \<Rightarrow> [] | Some n \<Rightarrow> [(''span.VU-ZEz'', text_element n)]))
           [])]
       []"

definition example_document :: "string \<Rightarrow> tag" where
  "example_document url =
     (if url = ''https://www.amazon.in/s?k=t-shirt''
      then listing ''.s-main-slot.s-result-list'' ''div.a-section.a-spacing-base''
             [amazon_card (rupee @ ''1,999'') (rupee @ ''1,499'') ''/Cotton-T-Shirt/dp/B000000000/ref=sr_1_1'']
      else if url = ''https://www.flipkart.com/search?q=t-shirt''
      then listing ''div._1AtVbE div._2kHMtA'' ''div._1AtVbE div._2kHMtA''
             [flipkart_card (rupee @ ''1,999'') ''/t-shirt/p/itm1?pid=TSH1'',
              flipkart_card (rupee @ ''1,999'') ''/t-shirt/p/itm1?pid=TSH1&lid=2'',
              flipkart_card (rupee @ ''2,501'') ''/t-shirt/p/itm2?pid=TSH2'',
              flipkart_card (rupee @ ''1,200'') ''/t-shirt/p/itm3?pid=TSH3'',
              flipkart_card (rupee @ ''899'') ''/t-shirt/p/itm5?pid=TSH5'']
      else if url = ''https://www.flipkart.com/search?q=free''
      then listing ''div._1AtVbE div._2kHMtA'' ''div._1AtVbE div._2kHMtA''
             [flipkart_card ''Free'' ''/t-shirt/p/itm4?pid=TSH4'']
      else if url = ''https://www.flipkart.com/t-shirt/p/itm1''
      then flipkart_product_page (rupee @ ''1,999'') (rupee @ ''1,499'') (Some ''Cotton T-Shirt'')
      else if url = ''https://www.flipkart.com/t-shirt/p/itm3''
      then flipkart_product_page (rupee @ ''1,200'') (rupee @ ''999'') None
      else if url = ''https://www.flipkart.com/t-shirt/p/itm5''
      then flipkart_product_page (rupee @ ''899'') (rupee @ ''499'') (Some ''Printed T-Shirt'')
      else if url = ''https://www.flipkart.com/t-shirt/p/itm6''
      then flipkart_product_page (rupee @ ''2,500'') (rupee @ ''1,499'') (Some ''Linen T-Shirt'')
      else Tag [] [] [] [])"

definition example_world :: "(int, string) world" where
  "example_world =
     \<lparr>py_float = example_float,
      py_int = (\<lambda>x. Inr x),
      predict_deal = (\<lambda>product_details. Inr ''Best Deal''),
      driver_get = (\<lambda>url b. (None, url)),
      wait_until_present = (\<lambda>selector b. (None, b)),
      page_source = (\<lambda>b. Inr (Some (example_document b))),
      click_next = (\<lambda>selector b. (Some DriverError, b)),
      clock = 1000\<rparr>"

definition example_redis :: RedisDB where
  "example_redis =
     \<lparr>client = Some \<lparr>keyspace = [(''product_url_cache'', [''https://www.flipkart.com/t-shirt/p/itm9/?affid=admitad&affExtParam1=298614''], None)],
                     reachable = True, scan_count = 9\<rparr>\<rparr>"

definition example_session :: "Websites \<Rightarrow> int option \<Rightarrow> string SeleniumHelper" where
  \<comment> \<open>the object after \<^verbatim>\<open>__init__\<close> and the assignments that open \<^verbatim>\<open>get_products\<close>\<close>
  "example_session site cp =
     (init example_redis [])\<lparr>website_name := Some site, category := Some ''t-shirt'',
                              current_page := cp\<rparr>"







section \<open>Properties of the retry decorator\<close>

lemma state_before_Suc: "state_before func (snd (func s)) i = state_before func s (Suc i)"
  by (induction i) (simp_all add: state_before_def)

lemma state_before_0: "state_before func s 0 = s"
  by (simp add: state_before_def)

lemma retry_loop_exhausted:
  assumes "\<And>i. i < n - j \<Longrightarrow> raises_at func s i" and "j \<le> n"
  shows "retry_loop (int n) func (map int [j..<n]) s c ws =
     \<lparr>returned = None, final_state = state_before func s (n - j),
      invocations = c + (n - j), sleeps = ws @ map (\<lambda>i. 2 ^ i) [j..<n - 1]\<rparr>"
  using assms
proof (induction "n - j" arbitrary: j s c ws)
  case 0
  then show ?case by (simp add: state_before_0)
next
  case (Suc d)
  then have jn: "j < n" by simp
  have up: "[j..<n] = j # [Suc j..<n]" using jn by (simp add: upt_conv_Cons)
  from Suc.prems(1)[of 0] Suc.hyps(2) have r0: "isl (fst (func s))"
    by (simp add: raises_at_def state_before_0)
  then obtain e s' where fs: "func s = (Inl e, s')"
    by (cases "func s"; cases "fst (func s)") auto
  have tail: "\<And>i. i < n - Suc j \<Longrightarrow> raises_at func s' i"
  proof -
    fix i assume "i < n - Suc j"
    then have "raises_at func s (Suc i)" using Suc.prems(1)[of "Suc i"] by simp
    then show "raises_at func s' i"
      using fs by (simp add: raises_at_def state_before_Suc[symmetric])
  qed
  show ?case
  proof (cases "Suc j < n")
    case True
    have d: "d = n - Suc j" using Suc.hyps(2) by simp
    have ih: "retry_loop (int n) func (map int [Suc j..<n]) s' (Suc c) (ws @ [2 ^ j]) =
      \<lparr>returned = None, final_state = state_before func s' (n - Suc j),
      invocations = Suc c + (n - Suc j), sleeps = (ws @ [2 ^ j]) @ map (\<lambda>i. 2 ^ i) [Suc j..<n - 1]\<rparr>"
      using Suc.hyps(1)[OF d tail] True by simp
    have st: "state_before func s' (n - Suc j) = state_before func s (n - j)"
      using fs state_before_Suc[of func s "n - Suc j"] jn by (simp add: Suc_diff_Suc)
    have up2: "[j..<n - Suc 0] = j # [Suc j..<n - Suc 0]" using True by (simp add: upt_conv_Cons)
    show ?thesis using True ih st jn by (simp add: up fs up2 del: upt_Suc)
  next
    case False
    then have nj: "n = Suc j" using jn by simp
    show ?thesis using fs by (simp add: nj state_before_def)
  qed
qed

lemma retry_loop_succeeds:
  assumes "\<And>i. i < k \<Longrightarrow> raises_at func s i"
    and "fst (func (state_before func s k)) = Inr v" and "j + k < n"
  shows "retry_loop (int n) func (map int [j..<n]) s c ws =
     \<lparr>returned = Some v, final_state = state_before func s (Suc k),
      invocations = c + Suc k, sleeps = ws @ map (\<lambda>i. 2 ^ i) [j..<j + k]\<rparr>"
  using assms
proof (induction k arbitrary: j s c ws)
  case 0
  then have up: "[j..<n] = j # [Suc j..<n]" by (simp add: upt_conv_Cons)
  from 0 obtain s' where fs: "func s = (Inr v, s')"
    by (cases "func s") (auto simp: state_before_0)
  show ?case by (simp add: up fs state_before_def)
next
  case (Suc k)
  then have up: "[j..<n] = j # [Suc j..<n]" by (simp add: upt_conv_Cons)
  from Suc.prems(1)[of 0] have "isl (fst (func s))"
    by (simp add: raises_at_def state_before_0)
  then obtain e s' where fs: "func s = (Inl e, s')"
    by (cases "func s"; cases "fst (func s)") auto
  have tail: "\<And>i. i < k \<Longrightarrow> raises_at func s' i"
  proof -
    fix i assume "i < k"
    then have "raises_at func s (Suc i)" using Suc.prems(1)[of "Suc i"] by simp
    then show "raises_at func s' i"
      using fs by (simp add: raises_at_def state_before_Suc[symmetric])
  qed
  have ok: "fst (func (state_before func s' k)) = Inr v"
    using Suc.prems(2) fs by (simp add: state_before_Suc[symmetric])
  have ih: "retry_loop (int n) func (map int [Suc j..<n]) s' (Suc c) (ws @ [2 ^ j]) =
     \<lparr>returned = Some v, final_state = state_before func s' (Suc k),
      invocations = Suc c + Suc k, sleeps = (ws @ [2 ^ j]) @ map (\<lambda>i. 2 ^ i) [Suc j..<Suc j + k]\<rparr>"
    using Suc.IH[OF tail ok, of "Suc j"] Suc.prems(3) by simp
  have st: "state_before func s' (Suc k) = state_before func s (Suc (Suc k))"
    using fs state_before_Suc[of func s "Suc k"] by simp
  have up2: "[j..<Suc (j + k)] = j # [Suc j..<Suc (j + k)]" by (simp add: upt_conv_Cons del: upt_Suc)
  have lt: "int j < int n - 1" using Suc.prems(3) by simp
  show ?case using ih st lt by (simp add: up fs up2 del: upt_Suc)
qed


text \<open>
  Claim C3. With \<open>max_retries = 3\<close>: an operation that raises on each of its first three
  invocations is invoked exactly three times, the wrapper sleeps 1 and then 2 seconds
  (\<open>2 ^ retry_count\<close> after the failed attempt number \<open>retry_count + 1\<close>), and the wrapper
  returns \<^verbatim>\<open>None\<close> rather than raising. An operation whose first success is its
  \<open>k\<close>-th invocation, \<open>k \<le> 3\<close>, is invoked exactly \<open>k\<close> times, the wrapper sleeps
  \<open>1, 2, \<dots>, 2 ^ (k - 2)\<close> in between, and the operation's value is returned.
\<close>

theorem retry_three_attempts:
  "((\<forall>i<3. raises_at func s i) \<longrightarrow>
      retry 3 func s =
        \<lparr>returned = None, final_state = state_before func s 3,
         invocations = 3, sleeps = [1, 2]\<rparr>) \<and>
   (1 \<le> k \<and> k \<le> 3 \<and> (\<forall>i<k - 1. raises_at func s i) \<and>
    fst (func (state_before func s (k - 1))) = Inr v \<longrightarrow>
      retry 3 func s =
        \<lparr>returned = Some v, final_state = state_before func s k,
         invocations = k, sleeps = map (\<lambda>i. 2 ^ i) [0..<k - 1]\<rparr>)"
proof (intro conjI impI)
  assume "\<forall>i<3. raises_at func s i"
  then have "retry_loop (int 3) func (map int [0..<3]) s 0 [] =
     \<lparr>returned = None, final_state = state_before func s (3 - 0),
      invocations = 0 + (3 - 0), sleeps = [] @ map (\<lambda>i. 2 ^ i) [0..<3 - 1]\<rparr>"
    by (intro retry_loop_exhausted) simp_all
  then show "retry 3 func s =
        \<lparr>returned = None, final_state = state_before func s 3,
         invocations = 3, sleeps = [1, 2]\<rparr>"
    by (simp add: retry_def py_range_def upt_conv_Cons del: upt_Suc)
next
  assume a: "1 \<le> k \<and> k \<le> 3 \<and> (\<forall>i<k - 1. raises_at func s i) \<and>
    fst (func (state_before func s (k - 1))) = Inr v"
  then have "retry_loop (int 3) func (map int [0..<3]) s 0 [] =
     \<lparr>returned = Some v, final_state = state_before func s (Suc (k - 1)),
      invocations = 0 + Suc (k - 1), sleeps = [] @ map (\<lambda>i. 2 ^ i) [0..<0 + (k - 1)]\<rparr>"
    by (intro retry_loop_succeeds) auto
  then show "retry 3 func s =
        \<lparr>returned = Some v, final_state = state_before func s k,
         invocations = k, sleeps = map (\<lambda>i. 2 ^ i) [0..<k - 1]\<rparr>"
    using a by (simp add: retry_def py_range_def)
qed

theorem retry_three_attempts_witness:
  "retry 3 (\<lambda>c::nat. (Inl DriverError :: exn + nat, Suc c)) 0 =
     \<lparr>returned = None, final_state = 3, invocations = 3, sleeps = [1, 2]\<rparr> \<and>
   retry 3 (\<lambda>c::nat. (if c < 1 then Inl DriverError else Inr (c * 10), Suc c)) 0 =
     \<lparr>returned = Some 10, final_state = 2, invocations = 2, sleeps = [1]\<rparr>"
proof
  show "retry 3 (\<lambda>c::nat. (Inl DriverError :: exn + nat, Suc c)) 0 =
     \<lparr>returned = None, final_state = 3, invocations = 3, sleeps = [1, 2]\<rparr>"
    using retry_three_attempts [of "\<lambda>c::nat. (Inl DriverError :: exn + nat, Suc c)" 0 0 0]
    by (simp add: raises_at_def state_before_def eval_nat_numeral)
  show "retry 3 (\<lambda>c::nat. (if c < 1 then Inl DriverError else Inr (c * 10), Suc c)) 0 =
     \<lparr>returned = Some 10, final_state = 2, invocations = 2, sleeps = [1]\<rparr>"
    using retry_three_attempts
      [of "\<lambda>c::nat. (if c < 1 then Inl DriverError else Inr (c * 10), Suc c)" 0 2 10]
    by (simp add: raises_at_def state_before_def eval_nat_numeral)
qed

section \<open>Properties of the affiliate rewrite\<close>

lemma dp_match_Some:
  "dp_match s = Some g \<Longrightarrow> length g = 10 \<and> list_all is_alnum g \<and> (\<exists>post. s = ''/dp/'' @ g @ post)"
proof -
  assume a: "dp_match s = Some g"
  let ?g = "take 10 (drop 4 s)"
  from a have p: "prefix ''/dp/'' s" and l: "length ?g = 10" and al: "list_all is_alnum ?g"
    and g: "g = ?g"
    unfolding dp_match_def Let_def by (auto split: if_splits)
  from p obtain rest where r: "s = ''/dp/'' @ rest" unfolding prefix_def by blast
  then have "drop 4 s = rest" by simp
  then have "rest = ?g @ drop 10 rest" by simp
  with r have "s = ''/dp/'' @ ?g @ drop 10 rest" by simp
  then show ?thesis using l al g by blast
qed

lemma dp_match_here:
  "length g = 10 \<Longrightarrow> list_all is_alnum g \<Longrightarrow> dp_match (''/dp/'' @ g @ post) = Some g"
  unfolding dp_match_def Let_def by simp

lemma search_dp_Some:
  "search_dp s = Some g \<Longrightarrow>
     length g = 10 \<and> list_all is_alnum g \<and> (\<exists>pre post. s = pre @ ''/dp/'' @ g @ post)"
proof (induction s)
  case Nil
  then show ?case by simp
next
  case (Cons c cs)
  show ?case
  proof (cases "dp_match (c # cs)")
    case (Some g')
    then have g: "g' = g" using Cons.prems by simp
    from dp_match_Some[OF Some] g obtain post where
      "length g = 10" "list_all is_alnum g" "c # cs = [] @ ''/dp/'' @ g @ post" by auto
    then show ?thesis by blast
  next
    case None
    then have "search_dp cs = Some g" using Cons.prems by simp
    from Cons.IH[OF this] obtain pre post where
      h: "length g = 10" "list_all is_alnum g" "cs = pre @ ''/dp/'' @ g @ post" by blast
    then have "c # cs = (c # pre) @ ''/dp/'' @ g @ post" by simp
    then show ?thesis using h(1,2) by blast
  qed
qed

lemma search_dp_found:
  "length g = 10 \<Longrightarrow> list_all is_alnum g \<Longrightarrow> search_dp (pre @ ''/dp/'' @ g @ post) \<noteq> None"
proof (induction pre)
  case Nil
  have "search_dp (''/dp/'' @ g @ post) = Some g"
    using dp_match_here[OF Nil, of post] by simp
  then show ?case by simp
next
  case (Cons c pre)
  then show ?case by (cases "dp_match (c # pre @ ''/dp/'' @ g @ post)") simp_all
qed

lemma search_dp_None_iff: "(search_dp s = None) = (\<not> contains_dp_id s)"
proof
  assume n: "search_dp s = None"
  show "\<not> contains_dp_id s"
  proof
    assume "contains_dp_id s"
    then obtain pre g post where "s = pre @ ''/dp/'' @ g @ post" "length g = 10" "list_all is_alnum g"
      unfolding contains_dp_id_def by blast
    then have "search_dp s \<noteq> None" using search_dp_found by blast
    with n show False by simp
  qed
next
  assume c: "\<not> contains_dp_id s"
  show "search_dp s = None"
  proof (cases "search_dp s")
    case None
    then show ?thesis .
  next
    case (Some g)
    from search_dp_Some[OF Some] have "contains_dp_id s"
      unfolding contains_dp_id_def by blast
    with c show ?thesis by simp
  qed
qed

lemma dp_id_at_0: "dp_id_at s 0 g = (dp_match s = Some g)"
proof
  assume "dp_id_at s 0 g"
  then obtain post where "s = ''/dp/'' @ g @ post" "length g = 10" "list_all is_alnum g"
    unfolding dp_id_at_def by auto
  then show "dp_match s = Some g" using dp_match_here by simp
next
  assume "dp_match s = Some g"
  from dp_match_Some[OF this] obtain post where
    "length g = 10" "list_all is_alnum g" "s = [] @ ''/dp/'' @ g @ post" by auto
  then show "dp_id_at s 0 g" unfolding dp_id_at_def by blast
qed

lemma dp_id_at_Suc: "dp_id_at (c # cs) (Suc i) g = dp_id_at cs i g"
proof
  assume "dp_id_at (c # cs) (Suc i) g"
  then obtain pre post where p: "c # cs = pre @ ''/dp/'' @ g @ post" "length pre = Suc i"
    "length g = 10" "list_all is_alnum g" unfolding dp_id_at_def by blast
  then obtain pre' where "pre = c # pre'" by (cases pre) auto
  with p have "cs = pre' @ ''/dp/'' @ g @ post" "length pre' = i" by simp_all
  with p(3,4) show "dp_id_at cs i g" unfolding dp_id_at_def by blast
next
  assume "dp_id_at cs i g"
  then obtain pre post where p: "cs = pre @ ''/dp/'' @ g @ post" "length pre = i"
    "length g = 10" "list_all is_alnum g" unfolding dp_id_at_def by blast
  then have "c # cs = (c # pre) @ ''/dp/'' @ g @ post" "length (c # pre) = Suc i" by simp_all
  with p(3,4) show "dp_id_at (c # cs) (Suc i) g" unfolding dp_id_at_def by blast
qed

lemma dp_id_at_Nil: "\<not> dp_id_at [] i g"
  unfolding dp_id_at_def by auto

lemma dp_id_at_unique: "dp_id_at s i g \<Longrightarrow> dp_id_at s i g' \<Longrightarrow> g = g'"
proof -
  assume "dp_id_at s i g" and "dp_id_at s i g'"
  then obtain pre post pre' post' where
    a: "s = pre @ ''/dp/'' @ g @ post" "length pre = i" "length g = 10"
    and b: "s = pre' @ ''/dp/'' @ g' @ post'" "length pre' = i" "length g' = 10"
    unfolding dp_id_at_def by blast
  from a(1) b(1) a(2) b(2) have "''/dp/'' @ g @ post = ''/dp/'' @ g' @ post'" by simp
  then have "g @ post = g' @ post'" by simp
  then show "g = g'" using a(3) b(3) by simp
qed

lemma search_dp_leftmost: "search_dp s = Some g \<Longrightarrow> leftmost_dp_id s g"
proof (induction s)
  case Nil
  then show ?case by simp
next
  case (Cons c cs)
  show ?case
  proof (cases "dp_match (c # cs)")
    case (Some g')
    then have "g' = g" using Cons.prems by simp
    then have "dp_id_at (c # cs) 0 g" using Some by (simp add: dp_id_at_0)
    then show ?thesis unfolding leftmost_dp_id_def by (intro exI[of _ 0]) simp
  next
    case None
    then have "search_dp cs = Some g" using Cons.prems by simp
    from Cons.IH[OF this] obtain i where
      i: "dp_id_at cs i g" and m: "\<forall>j g'. dp_id_at cs j g' \<longrightarrow> i \<le> j"
      unfolding leftmost_dp_id_def by blast
    have "Suc i \<le> j" if "dp_id_at (c # cs) j g'" for j g'
    proof (cases j)
      case 0
      then show ?thesis using that None by (simp add: dp_id_at_0)
    next
      case (Suc j')
      then show ?thesis using that m by (auto simp: dp_id_at_Suc)
    qed
    moreover have "dp_id_at (c # cs) (Suc i) g" using i by (simp add: dp_id_at_Suc)
    ultimately show ?thesis unfolding leftmost_dp_id_def by blast
  qed
qed

lemma contains_dp_id_iff: "contains_dp_id s = (\<exists>i g. dp_id_at s i g)"
  unfolding contains_dp_id_def dp_id_at_def by blast

lemma search_dp_leftmost_iff: "(search_dp s = Some g) = leftmost_dp_id s g"
proof
  assume "search_dp s = Some g"
  then show "leftmost_dp_id s g" by (rule search_dp_leftmost)
next
  assume l: "leftmost_dp_id s g"
  then obtain i where i: "dp_id_at s i g" and m: "\<forall>j g'. dp_id_at s j g' \<longrightarrow> i \<le> j"
    unfolding leftmost_dp_id_def by blast
  from i have "contains_dp_id s" using contains_dp_id_iff by blast
  then obtain g0 where g0: "search_dp s = Some g0"
    using search_dp_None_iff[of s] by (cases "search_dp s") auto
  from search_dp_leftmost[OF g0] obtain i0 where
    i0: "dp_id_at s i0 g0" and m0: "\<forall>j g'. dp_id_at s j g' \<longrightarrow> i0 \<le> j"
    unfolding leftmost_dp_id_def by blast
  have "i = i0" using i i0 m m0 by (meson le_antisym)
  then have "g = g0" using i i0 dp_id_at_unique by blast
  then show "search_dp s = Some g" using g0 by simp
qed

lemma split_first_props:
  "CHR ''?'' \<notin> set (split_first CHR ''?'' url) \<and>
   (split_first CHR ''?'' url = url \<or> prefix (split_first CHR ''?'' url @ ''?'') url)"
proof -
  let ?p = "takeWhile (\<lambda>c. c \<noteq> CHR ''?'') url"
  let ?d = "dropWhile (\<lambda>c. c \<noteq> CHR ''?'') url"
  have a: "CHR ''?'' \<notin> set ?p" by (auto dest: set_takeWhileD)
  have u: "url = ?p @ ?d" by simp
  have b: "?p = url \<or> prefix (?p @ ''?'') url"
  proof (cases ?d)
    case Nil
    then show ?thesis using u by (metis append_Nil2)
  next
    case (Cons c rest)
    then have "c = CHR ''?''" using hd_dropWhile[of "\<lambda>c. c \<noteq> CHR ''?''" url] by auto
    then have "url = (?p @ ''?'') @ rest" using u Cons by (metis append.assoc append_Cons append_Nil)
    then show ?thesis using prefixI by blast
  qed
  show ?thesis using a b by (simp add: split_first_def)
qed

lemma amazon_rewrite_Some_iff:
  "(short_url_with_affiliate_code cfg (Some AMAZON) url = Inr (Some u)) =
     (\<exists>g. leftmost_dp_id (unquote url) g \<and>
          u = ''https://www.amazon.in/dp/'' @ g @ ''/'' @ AMAZON_AFFILIATE_ID cfg)"
  using search_dp_leftmost_iff[of "unquote url"]
  by (cases "search_dp (unquote url)") (auto simp: extract_amazon_product_id_def)

lemma amazon_rewrite_None: 
  "(short_url_with_affiliate_code cfg (Some AMAZON) url = Inr None) = (\<not> contains_dp_id (unquote url))"
  using search_dp_None_iff[of "unquote url"]
  by (cases "search_dp (unquote url)") (simp_all add: extract_amazon_product_id_def)

lemma contains_has_leftmost: "contains_dp_id s \<Longrightarrow> \<exists>g. leftmost_dp_id s g"
  using search_dp_None_iff[of s] search_dp_leftmost_iff[of s] by (cases "search_dp s") auto

text \<open>
  Claim C7, as amended. For FLIPKART the result is the site's base, the raw href up to
  its first question mark, a slash and the affiliate identifier; for MYNTRA it is the
  site's base, the whole raw href, a slash and the affiliate identifier. For AMAZON, when
  the percent-decoded href contains \<^verbatim>\<open>/dp/\<close> followed by ten alphanumeric characters, the
  result is \<^verbatim>\<open>https://www.amazon.in/dp/\<close>, the ten characters after the first such
  \<^verbatim>\<open>/dp/\<close>, a slash and the affiliate identifier; otherwise the result is \<^verbatim>\<open>None\<close>. For
  AJIO, a member of the enumeration, and for a session whose site is not set, the rewrite
  raises \<^verbatim>\<open>ValueError\<close>.
\<close>

theorem affiliate_rewrite_by_site:
  "(\<exists>p. short_url_with_affiliate_code cfg (Some FLIPKART) url =
          Inr (Some (''https://www.flipkart.com'' @ p @ ''/'' @ FLIPKART_AFFILIATE_ID cfg)) \<and>
        CHR ''?'' \<notin> set p \<and> (p = url \<or> prefix (p @ ''?'') url)) \<and>
   short_url_with_affiliate_code cfg (Some MYNTRA) url =
     Inr (Some (''https://www.myntra.com/'' @ url @ ''/'' @ MYNTRA_AFFILIATE_ID cfg)) \<and>
   (\<forall>g. leftmost_dp_id (unquote url) g \<longrightarrow>
        short_url_with_affiliate_code cfg (Some AMAZON) url =
          Inr (Some (''https://www.amazon.in/dp/'' @ g @ ''/'' @ AMAZON_AFFILIATE_ID cfg))) \<and>
   (contains_dp_id (unquote url) \<longrightarrow> (\<exists>g. leftmost_dp_id (unquote url) g)) \<and>
   (\<not> contains_dp_id (unquote url) \<longrightarrow>
        short_url_with_affiliate_code cfg (Some AMAZON) url = Inr None) \<and>
   short_url_with_affiliate_code cfg (Some AJIO) url = Inl ValueError \<and>
   short_url_with_affiliate_code cfg None url = Inl ValueError"
proof (intro conjI allI impI)
  show "\<exists>p. short_url_with_affiliate_code cfg (Some FLIPKART) url =
          Inr (Some (''https://www.flipkart.com'' @ p @ ''/'' @ FLIPKART_AFFILIATE_ID cfg)) \<and>
        CHR ''?'' \<notin> set p \<and> (p = url \<or> prefix (p @ ''?'') url)"
    using split_first_props[of url] by (intro exI[of _ "split_first CHR ''?'' url"]) simp
  show "short_url_with_affiliate_code cfg (Some MYNTRA) url =
     Inr (Some (''https://www.myntra.com/'' @ url @ ''/'' @ MYNTRA_AFFILIATE_ID cfg))"
    by simp
  show "short_url_with_affiliate_code cfg (Some AMAZON) url =
          Inr (Some (''https://www.amazon.in/dp/'' @ g @ ''/'' @ AMAZON_AFFILIATE_ID cfg))"
    if "leftmost_dp_id (unquote url) g" for g
    using that amazon_rewrite_Some_iff by blast
  show "\<exists>g. leftmost_dp_id (unquote url) g" if "contains_dp_id (unquote url)"
    using that by (rule contains_has_leftmost)
  show "short_url_with_affiliate_code cfg (Some AMAZON) url = Inr None"
    if "\<not> contains_dp_id (unquote url)"
    using that amazon_rewrite_None by blast
  show "short_url_with_affiliate_code cfg (Some AJIO) url = Inl ValueError" by simp
  show "short_url_with_affiliate_code cfg None url = Inl ValueError" by simp
qed

theorem affiliate_rewrite_by_site_witness:
  "leftmost_dp_id (unquote ''/Cotton-T-Shirt/dp/B000000000/ref=sr_1_1?dp/B000000001'') ''B000000000'' \<and>
   short_url_with_affiliate_code example_config (Some AMAZON)
     ''/Cotton-T-Shirt/dp/B000000000/ref=sr_1_1?dp/B000000001'' =
     Inr (Some ''https://www.amazon.in/dp/B000000000/?tag=aladdinloot3-21'') \<and>
   \<not> contains_dp_id (unquote ''/gp/product/B000000000'') \<and>
   short_url_with_affiliate_code example_config (Some AMAZON) ''/gp/product/B000000000'' = Inr None \<and>
   short_url_with_affiliate_code example_config (Some FLIPKART) ''/shirt/p/itm1?pid=7'' =
     Inr (Some ''https://www.flipkart.com/shirt/p/itm1/?affid=admitad&affExtParam1=298614'') \<and>
   short_url_with_affiliate_code example_config (Some AJIO) ''/shirt/p/itm1?pid=7'' = Inl ValueError"
proof -
  let ?a = "''/Cotton-T-Shirt/dp/B000000000/ref=sr_1_1?dp/B000000001''"
  let ?b = "''/gp/product/B000000000''"
  have "search_dp (unquote ?a) = Some ''B000000000''" by code_simp
  then have l: "leftmost_dp_id (unquote ?a) ''B000000000''" by (simp only: search_dp_leftmost_iff)
  have "search_dp (unquote ?b) = None" by code_simp
  then have n: "\<not> contains_dp_id (unquote ?b)" using search_dp_None_iff [of "unquote ?b"] by blast
  have f: "short_url_with_affiliate_code example_config (Some FLIPKART) ''/shirt/p/itm1?pid=7'' =
     Inr (Some ''https://www.flipkart.com/shirt/p/itm1/?affid=admitad&affExtParam1=298614'')"
    by code_simp
  have id: "AMAZON_AFFILIATE_ID example_config = ''?tag=aladdinloot3-21''"
    by (simp add: example_config_def)
  show ?thesis
    using affiliate_rewrite_by_site [of example_config ?a] affiliate_rewrite_by_site [of example_config ?b]
      affiliate_rewrite_by_site [of example_config "''/shirt/p/itm1?pid=7''"] l n f id
    by simp
qed

theorem affiliate_rewrite_ajio_counterexample:
  "short_url_with_affiliate_code example_config (Some AJIO) ''/p/469012345'' = Inl ValueError"
  by simp

text \<open>
  Claim C10, as amended. For the site AMAZON the rewrite never raises. It returns
  \<^verbatim>\<open>None\<close> exactly for the raw hrefs whose percent-decoded form does not contain
  \<^verbatim>\<open>/dp/\<close> followed by ten alphanumeric characters; for every other href it returns
  \<^verbatim>\<open>https://www.amazon.in/dp/\<close>, the ten characters after the first such \<^verbatim>\<open>/dp/\<close>, a
  slash and the affiliate identifier, and nothing else. For an href of the first kind the
  value that \<^verbatim>\<open>format_extracted_data\<close> computes for \<^verbatim>\<open>product_url\<close>, the key of the
  duplicate checks in \<^verbatim>\<open>is_product_valid\<close>, is \<^verbatim>\<open>None\<close>.
\<close>

theorem amazon_rewrite_none_iff:
  "\<not> isl (short_url_with_affiliate_code cfg (Some AMAZON) url) \<and>
   (short_url_with_affiliate_code cfg (Some AMAZON) url = Inr None) =
     (\<not> contains_dp_id (unquote url)) \<and>
   (\<forall>u. (short_url_with_affiliate_code cfg (Some AMAZON) url = Inr (Some u)) =
        (\<exists>g. leftmost_dp_id (unquote url) g \<and>
             u = ''https://www.amazon.in/dp/'' @ g @ ''/'' @ AMAZON_AFFILIATE_ID cfg)) \<and>
   (website_name self = Some AMAZON \<and> \<not> contains_dp_id (unquote url) \<longrightarrow>
      format_extracted_data w cfg self ''product_url'' (Some url) = Inr VNone)"
proof (intro conjI allI impI)
  show "\<not> isl (short_url_with_affiliate_code cfg (Some AMAZON) url)"
    by (cases "extract_amazon_product_id url") simp_all
  show "(short_url_with_affiliate_code cfg (Some AMAZON) url = Inr None) =
     (\<not> contains_dp_id (unquote url))"
    by (rule amazon_rewrite_None)
  show "(short_url_with_affiliate_code cfg (Some AMAZON) url = Inr (Some u)) =
        (\<exists>g. leftmost_dp_id (unquote url) g \<and>
             u = ''https://www.amazon.in/dp/'' @ g @ ''/'' @ AMAZON_AFFILIATE_ID cfg)" for u
    by (rule amazon_rewrite_Some_iff)
  show "format_extracted_data w cfg self ''product_url'' (Some url) = Inr VNone"
    if "website_name self = Some AMAZON \<and> \<not> contains_dp_id (unquote url)"
  proof -
    have "short_url_with_affiliate_code cfg (Some AMAZON) url = Inr None"
      using that amazon_rewrite_None by blast
    then show ?thesis using that by (simp add: format_extracted_data_def)
  qed
qed

theorem amazon_rewrite_none_iff_witness:
  "short_url_with_affiliate_code example_config (Some AMAZON) ''/gp/product/B000000000'' = Inr None \<and>
   \<not> contains_dp_id (unquote ''/gp/product/B000000000'') \<and>
   format_extracted_data example_world example_config (example_session AMAZON None)
     ''product_url'' (Some ''/gp/product/B000000000'') = Inr VNone \<and>
   leftmost_dp_id (unquote ''/dp/AAAAAAAAAA/x/dp/BBBBBBBBBB'') ''AAAAAAAAAA'' \<and>
   short_url_with_affiliate_code example_config (Some AMAZON) ''/dp/AAAAAAAAAA/x/dp/BBBBBBBBBB'' =
     Inr (Some ''https://www.amazon.in/dp/AAAAAAAAAA/?tag=aladdinloot3-21'')"
proof -
  let ?a = "''/gp/product/B000000000''"
  let ?b = "''/dp/AAAAAAAAAA/x/dp/BBBBBBBBBB''"
  have "search_dp (unquote ?a) = None" by code_simp
  then have n: "\<not> contains_dp_id (unquote ?a)" using search_dp_None_iff [of "unquote ?a"] by blast
  have "search_dp (unquote ?b) = Some ''AAAAAAAAAA''" by code_simp
  then have l: "leftmost_dp_id (unquote ?b) ''AAAAAAAAAA''" by (simp only: search_dp_leftmost_iff)
  have s: "website_name (example_session AMAZON None) = Some AMAZON"
    by (simp add: example_session_def)
  have id: "AMAZON_AFFILIATE_ID example_config = ''?tag=aladdinloot3-21''"
    by (simp add: example_config_def)
  have 1: "short_url_with_affiliate_code example_config (Some AMAZON) ?a = Inr None"
    and 2: "format_extracted_data example_world example_config (example_session AMAZON None)
       ''product_url'' (Some ?a) = Inr VNone"
    using amazon_rewrite_none_iff [of example_config ?a "example_session AMAZON None" example_world] n s
    by blast+
  have 3: "short_url_with_affiliate_code example_config (Some AMAZON) ?b =
     Inr (Some ''https://www.amazon.in/dp/AAAAAAAAAA/?tag=aladdinloot3-21'')"
    using amazon_rewrite_none_iff [of example_config ?b "example_session AMAZON None" example_world] l id
    by auto
  show ?thesis using 1 2 3 n l by blast
qed

theorem amazon_rewrite_encoded_href_counterexample:
  "\<not> contains_dp_id ''%2Fdp%2FB000000000'' \<and>
   short_url_with_affiliate_code example_config (Some AMAZON) ''%2Fdp%2FB000000000'' =
     Inr (Some ''https://www.amazon.in/dp/B000000000/?tag=aladdinloot3-21'')"
proof
  have "search_dp ''%2Fdp%2FB000000000'' = None" by code_simp
  then show "\<not> contains_dp_id ''%2Fdp%2FB000000000''"
    using search_dp_None_iff [of "''%2Fdp%2FB000000000''"] by blast
  show "short_url_with_affiliate_code example_config (Some AMAZON) ''%2Fdp%2FB000000000'' =
     Inr (Some ''https://www.amazon.in/dp/B000000000/?tag=aladdinloot3-21'')"
    by code_simp
qed

section \<open>Properties of the deduplication cache\<close>

lemma map_of_filter_distinct:
  "distinct (map fst ks) \<Longrightarrow>
   map_of (filter P ks) k = (case map_of ks k of None \<Rightarrow> None | Some v \<Rightarrow> if P (k, v) then Some v else None)"
proof (induction ks)
  case Nil
  then show ?case by simp
next
  case (Cons a ks)
  obtain k' v' where a: "a = (k', v')" by (cases a)
  have nk: "map_of ks k' = None" using Cons.prems a by (simp add: map_of_eq_None_iff)
  show ?case using Cons a nk by (auto split: option.splits)
qed

lemma map_of_put_key: "map_of (put_key key v ks) k = (if k = key then Some v else map_of ks k)"
  by (induction ks) auto

lemma fst_set_put_key: "set (map fst (put_key key v ks)) = insert key (set (map fst ks))"
proof (induction ks)
  case Nil
  then show ?case by simp
next
  case (Cons a ks)
  obtain k w where a: "a = (k, w)" by (cases a)
  show ?case using Cons a by (cases "k = key") (simp_all add: insert_commute)
qed

lemma distinct_put_key: "distinct (map fst ks) \<Longrightarrow> distinct (map fst (put_key key v ks))"
proof (induction ks)
  case Nil
  then show ?case by simp
next
  case (Cons a ks)
  obtain k w where a: "a = (k, w)" by (cases a)
  have "k \<notin> set (map fst (put_key key v ks))" if "k \<noteq> key"
    using Cons.prems a that by (simp only: fst_set_put_key) simp
  then show ?case using Cons a by auto
qed

lemma distinct_filter_keys: "distinct (map fst ks) \<Longrightarrow> distinct (map fst (filter P ks))"
  by (simp add: distinct_map_filter)

lemma scan_cover:
  assumes "reachable srv" and "scan srv now c pat = Inr (c', keys)"
  shows "(\<exists>k \<in> set (drop c (map fst (live_keyspace srv now))). pat k \<and> Q k) =
         ((\<exists>k \<in> set keys. Q k) \<or>
          (c' \<noteq> 0 \<and> (\<exists>k \<in> set (drop c' (map fst (live_keyspace srv now))). pat k \<and> Q k)))"
proof -
  define ks where "ks = map fst (live_keyspace srv now)"
  define n where "n = Suc (scan_count srv)"
  have keys: "keys = filter pat (take n (drop c ks))"
    and c': "c' = (if length ks \<le> c + n then 0 else c + n)"
    using assms by (auto simp: scan_def Let_def ks_def n_def)
  have split: "drop c ks = take n (drop c ks) @ drop (c + n) ks"
    by (metis append_take_drop_id drop_drop add.commute)
  have s: "set (drop c ks) = set (take n (drop c ks)) \<union> set (drop (c + n) ks)"
    by (subst split) simp
  show ?thesis
  proof (cases "length ks \<le> c + n")
    case True
    then show ?thesis unfolding ks_def[symmetric] s using keys c' by auto
  next
    case False
    have "0 < n" by (simp add: n_def)
    with False show ?thesis unfolding ks_def[symmetric] s using keys c' by auto
  qed
qed

lemma is_url_cached_loop_eq:
  "reachable srv \<Longrightarrow>
   is_url_cached_loop srv now pat url c =
     Inr (\<exists>k \<in> set (drop c (map fst (live_keyspace srv now))). pat k \<and> url \<in> set (smembers srv now k))"
proof (induction srv now pat url c rule: is_url_cached_loop.induct)
  case (1 srv now pat url c)
  obtain c' keys where sc: "scan srv now c pat = Inr (c', keys)"
    using "1.prems" by (auto simp: scan_def Let_def)
  note cover = scan_cover[OF "1.prems" sc, of "\<lambda>k. url \<in> set (smembers srv now k)"]
  show ?case
  proof (cases "keys = []")
    case True
    show ?thesis
    proof (cases "c' = 0")
      case True
      with \<open>keys = []\<close> sc cover show ?thesis
        by (subst is_url_cached_loop.simps) simp
    next
      case False
      have ih: "is_url_cached_loop srv now pat url c' =
        Inr (\<exists>k \<in> set (drop c' (map fst (live_keyspace srv now))). pat k \<and> url \<in> set (smembers srv now k))"
        using "1.IH"(1)[OF sc refl True False "1.prems"] .
      with \<open>keys = []\<close> False sc cover show ?thesis
        by (subst is_url_cached_loop.simps) simp
    qed
  next
    case False
    have pipe: "pipeline_sismember srv now keys url =
       Inr (map (\<lambda>key. url \<in> set (smembers srv now key)) keys)"
      using "1.prems" by (simp add: pipeline_sismember_def)
    have ex: "list_ex (\<lambda>r. r) (map (\<lambda>key. url \<in> set (smembers srv now key)) keys) =
       (\<exists>k \<in> set keys. url \<in> set (smembers srv now k))"
      by (simp add: list_ex_iff)
    show ?thesis
    proof (cases "(\<exists>k \<in> set keys. url \<in> set (smembers srv now k))")
      case True
      with False sc cover pipe ex show ?thesis
        by (subst is_url_cached_loop.simps) simp
    next
      case nomem: False
      show ?thesis
      proof (cases "c' = 0")
        case True
        with False nomem sc cover pipe ex show ?thesis
          by (subst is_url_cached_loop.simps) simp
      next
        case c0: False
        have ih: "is_url_cached_loop srv now pat url c' =
          Inr (\<exists>k \<in> set (drop c' (map fst (live_keyspace srv now))). pat k \<and> url \<in> set (smembers srv now k))"
          using "1.IH"(2)[OF sc refl False pipe] nomem ex c0 "1.prems" by simp
        with False nomem c0 sc cover pipe ex show ?thesis
          by (subst is_url_cached_loop.simps) simp
      qed
    qed
  qed
qed

lemma map_of_remove_key: "map_of (filter (\<lambda>e. fst e \<noteq> key) ks) key = None"
  by (induction ks) auto

lemma sadd_member:
  assumes "reachable srv" and "distinct (map fst (keyspace srv))"
    and "sadd srv t key [u] = (r, srv')"
  shows "(\<exists>n. r = Inr n) \<and> reachable srv' \<and> distinct (map fst (keyspace srv')) \<and>
         (\<exists>ms e. map_of (keyspace srv') key = Some (ms, e) \<and> u \<in> set ms \<and> live t (key, ms, e))"
proof -
  define ks where "ks = live_keyspace srv t"
  have dks: "distinct (map fst ks)"
    using assms(2) by (simp add: ks_def live_keyspace_def distinct_filter_keys)
  obtain old ex where oe: "(case map_of ks key of None \<Rightarrow> ([], None) | Some v \<Rightarrow> v) = (old, ex)"
    by (cases "case map_of ks key of None \<Rightarrow> ([], None) | Some v \<Rightarrow> v") auto
  have lv: "live t (key, old, ex)"
  proof (cases "map_of ks key")
    case None
    then show ?thesis using oe by (simp add: live_def)
  next
    case (Some v)
    then have "(key, old, ex) \<in> set ks" using oe by (auto dest: map_of_SomeD)
    then show ?thesis by (simp add: ks_def live_keyspace_def)
  qed
  have lv': "live t (key, ms, ex)" for ms using lv by (simp add: live_def)
  have r: "r = Inr (length (filter (\<lambda>m. m \<notin> set old) [u]))"
    and s: "srv' = srv\<lparr>keyspace := put_key key (old @ filter (\<lambda>m. m \<notin> set old) [u], ex) ks\<rparr>"
    using assms(1,3) oe by (auto simp: sadd_def Let_def ks_def)
  show ?thesis
    using r s assms(1) dks lv' by (auto simp: map_of_put_key distinct_put_key)
qed

lemma expire_member:
  assumes "reachable srv" and "distinct (map fst (keyspace srv))"
    and "map_of (keyspace srv) key = Some (ms, e)" and "live t (key, ms, e)" and "u \<in> set ms"
    and "expire srv t key secs = (r, srv')"
  shows "(\<exists>b. r = Inr b) \<and> reachable srv' \<and> distinct (map fst (keyspace srv')) \<and>
         (\<forall>ms e. map_of (keyspace srv') key = Some (ms, e) \<longrightarrow> u \<in> set ms)"
proof -
  define ks where "ks = live_keyspace srv t"
  have dks: "distinct (map fst ks)"
    using assms(2) by (simp add: ks_def live_keyspace_def distinct_filter_keys)
  have m: "map_of ks key = Some (ms, e)"
    using assms(2,3,4) by (simp add: ks_def live_keyspace_def map_of_filter_distinct)
  show ?thesis
  proof (cases "secs \<le> 0")
    case True
    then have "r = Inr True" and "srv' = srv\<lparr>keyspace := filter (\<lambda>e. fst e \<noteq> key) ks\<rparr>"
      using assms(1,6) m by (auto simp: expire_def Let_def ks_def)
    then show ?thesis using assms(1) dks by (auto simp: map_of_remove_key distinct_filter_keys)
  next
    case False
    then have "r = Inr True" and "srv' = srv\<lparr>keyspace := put_key key (ms, Some (t + nat secs)) ks\<rparr>"
      using assms(1,6) m by (auto simp: expire_def Let_def ks_def)
    then show ?thesis using assms(1,5) dks by (auto simp: map_of_put_key distinct_put_key)
  qed
qed

lemma add_to_set_member:
  assumes "client self = Some srv" and "reachable srv" and "distinct (map fst (keyspace srv))"
    and "add_to_set self t key (Str u) expire_time = (Some n, self')"
  shows "\<exists>srv'. client self' = Some srv' \<and> reachable srv' \<and> distinct (map fst (keyspace srv')) \<and>
         (\<forall>ms e. map_of (keyspace srv') key = Some (ms, e) \<longrightarrow> u \<in> set ms)"
proof -
  obtain r1 srv1 where s1: "sadd srv t key [u] = (r1, srv1)" by (cases "sadd srv t key [u]")
  from sadd_member[OF assms(2,3) s1] obtain n1 ms1 e1 where
    r1: "r1 = Inr n1" and re1: "reachable srv1" and d1: "distinct (map fst (keyspace srv1))"
    and m1: "map_of (keyspace srv1) key = Some (ms1, e1)" and u1: "u \<in> set ms1"
    and l1: "live t (key, ms1, e1)" by blast
  show ?thesis
  proof (cases "expire_time = None \<or> expire_time = Some 0")
    case True
    then have "self' = self\<lparr>client := Some srv1\<rparr>"
      using assms(1,4) s1 r1 by (auto simp: add_to_set_def redis_call_def)
    then show ?thesis using re1 d1 m1 u1 by simp
  next
    case False
    then obtain secs where et: "expire_time = Some secs" and nz: "secs \<noteq> 0" by auto
    obtain r2 srv2 where s2: "expire srv1 t key secs = (r2, srv2)" by (cases "expire srv1 t key secs")
    from expire_member[OF re1 d1 m1 l1 u1 s2] obtain b where
      r2: "r2 = Inr b" and re2: "reachable srv2" and d2: "distinct (map fst (keyspace srv2))"
      and m2: "\<forall>ms e. map_of (keyspace srv2) key = Some (ms, e) \<longrightarrow> u \<in> set ms" by blast
    have "self' = self\<lparr>client := Some srv2\<rparr>"
      using assms(1,4) s1 r1 s2 r2 et nz by (auto simp: add_to_set_def redis_call_def)
    then show ?thesis using re2 d2 m2 by simp
  qed
qed

lemma live_key_members:
  assumes "distinct (map fst (keyspace srv))" and "key \<in> set (map fst (live_keyspace srv now))"
    and "\<forall>ms e. map_of (keyspace srv) key = Some (ms, e) \<longrightarrow> u \<in> set ms"
  shows "u \<in> set (smembers srv now key)"
proof -
  from assms(2) obtain v where v: "map_of (live_keyspace srv now) key = Some v"
    by (metis map_of_eq_None_iff not_Some_eq set_map)
  obtain ms e where ve: "v = (ms, e)" by (cases v)
  have "map_of (keyspace srv) key = Some (ms, e)"
    using v ve assms(1) by (auto simp: live_keyspace_def map_of_filter_distinct split: option.splits if_splits)
  then show ?thesis using assms(3) v ve by (simp add: smembers_def)
qed

lemma is_url_cached_eq:
  assumes "client self = Some srv" and "reachable srv"
  shows "is_url_cached self now url pat =
     Some (\<exists>k \<in> set (live_keys self now). pat k \<and> url \<in> set (smembers srv now k))"
  using assms by (simp add: is_url_cached_def redis_call_def is_url_cached_loop_eq live_keys_def)

text \<open>
  Claim C4. For a connected client of a reachable server: once \<^verbatim>\<open>add_to_set\<close> has added
  the URL \<open>u\<close> to a set whose key matches the pattern, \<^verbatim>\<open>is_url_cached\<close> answers
  \<^verbatim>\<open>True\<close> for \<open>u\<close> at every instant at which that key has not expired; and when \<open>u\<close> is
  in no live set whose key matches the pattern, \<^verbatim>\<open>is_url_cached\<close> answers \<^verbatim>\<open>False\<close>.
\<close>

theorem register_then_exists:
  assumes "client self = Some srv" and "reachable srv" and "distinct (map fst (keyspace srv))"
  shows "(pattern key \<and> add_to_set self t key (Str u) expire_time = (Some n, self') \<and>
          key \<in> set (live_keys self' t')
            \<longrightarrow> is_url_cached self' t' u pattern = Some True) \<and>
         ((\<forall>k \<in> set (live_keys self t'). pattern k \<longrightarrow> u \<notin> set (smembers srv t' k))
            \<longrightarrow> is_url_cached self t' u pattern = Some False)"
proof (intro conjI impI)
  assume a: "pattern key \<and> add_to_set self t key (Str u) expire_time = (Some n, self') \<and>
          key \<in> set (live_keys self' t')"
  then obtain srv' where c: "client self' = Some srv'" and r: "reachable srv'"
    and d: "distinct (map fst (keyspace srv'))"
    and m: "\<forall>ms e. map_of (keyspace srv') key = Some (ms, e) \<longrightarrow> u \<in> set ms"
    using add_to_set_member[OF assms, of t key u expire_time n self'] by blast
  have k: "key \<in> set (map fst (live_keyspace srv' t'))"
    using a c by (simp add: live_keys_def)
  have "u \<in> set (smembers srv' t' key)"
    by (rule live_key_members[OF d k m])
  then show "is_url_cached self' t' u pattern = Some True"
    using a by (auto simp: is_url_cached_eq[OF c r])
next
  assume "\<forall>k \<in> set (live_keys self t'). pattern k \<longrightarrow> u \<notin> set (smembers srv t' k)"
  then show "is_url_cached self t' u pattern = Some False"
    by (auto simp: is_url_cached_eq[OF assms(1,2)])
qed

theorem register_then_exists_witness:
  "is_url_cached
     (snd (add_to_set
        \<lparr>client = Some \<lparr>keyspace = [(''product_url_cache_1_monday'', [''https://a''], None)],
                        reachable = True, scan_count = 9\<rparr>\<rparr>
        100 ''product_url_cache_2_tuesday'' (Str ''https://b'') (Some 3600)))
     200 ''https://b'' (default_pattern ''product_url_cache'') = Some True \<and>
   is_url_cached
     \<lparr>client = Some \<lparr>keyspace = [(''product_url_cache_1_monday'', [''https://a''], None)],
                     reachable = True, scan_count = 9\<rparr>\<rparr>
     200 ''https://b'' (default_pattern ''product_url_cache'') = Some False"
proof -
  let ?srv = "\<lparr>keyspace = [(''product_url_cache_1_monday'', [''https://a''], None)],
                reachable = True, scan_count = 9\<rparr>"
  let ?self = "\<lparr>client = Some ?srv\<rparr>"
  let ?self' = "\<lparr>client = Some \<lparr>keyspace =
       [(''product_url_cache_1_monday'', [''https://a''], None),
        (''product_url_cache_2_tuesday'', [''https://b''], Some 3700)],
       reachable = True, scan_count = 9\<rparr>\<rparr>"
  have add: "add_to_set ?self 100 ''product_url_cache_2_tuesday'' (Str ''https://b'') (Some 3600)
      = (Some 1, ?self')"
    by (simp add: add_to_set_def redis_call_def sadd_def expire_def live_keyspace_def live_def)
  have pat: "default_pattern ''product_url_cache'' ''product_url_cache_2_tuesday''"
    by (simp add: default_pattern_def)
  have lk: "''product_url_cache_2_tuesday'' \<in> set (live_keys ?self' 200)"
    by (simp add: live_keys_def live_keyspace_def live_def)
  have no: "\<forall>k \<in> set (live_keys ?self 200). default_pattern ''product_url_cache'' k \<longrightarrow>
      ''https://b'' \<notin> set (smembers ?srv 200 k)"
    by (simp add: live_keys_def live_keyspace_def live_def smembers_def)
  show ?thesis
    using register_then_exists [of ?self ?srv "default_pattern ''product_url_cache''"
        "''product_url_cache_2_tuesday''" 100 "''https://b''" "Some 3600" 1 ?self' 200]
      add pat lk no
    by simp
qed

section \<open>Properties of the pagination loop\<close>

text \<open>
  Claim C1 (code defect). The guard of the loop in \<^verbatim>\<open>get_products\<close> is
  \<^verbatim>\<open>len(products) >= MAX_PRODUCTS_PER_WEBSITE\<close>. For every positive limit the guard is false
  at the first test: the call returns the empty list, and the driver is in the state in
  which the call found it, so no page has been fetched.
\<close>

theorem get_products_never_fetches:
  "0 < MAX_PRODUCTS_PER_WEBSITE cfg \<Longrightarrow>
   get_products w cfg self site cat url =
     Some (Inr [], self\<lparr>website_name := Some site, category := Some cat, page_conter := 1,
                        product_urls := []\<rparr>)"
  unfolding get_products_def by (subst get_products_loop.simps) simp

theorem get_products_never_fetches_witness:
  "0 < MAX_PRODUCTS_PER_WEBSITE example_config \<and>
   get_products example_world example_config (example_session FLIPKART (Some 1)) FLIPKART
     ''t-shirt'' ''https://www.flipkart.com/search?q=t-shirt'' =
     Some (Inr [], (example_session FLIPKART (Some 1))
              \<lparr>website_name := Some FLIPKART, category := Some ''t-shirt'', page_conter := 1,
               product_urls := []\<rparr>)"
proof -
  have m: "0 < MAX_PRODUCTS_PER_WEBSITE example_config" by (simp add: example_config_def)
  show ?thesis
    using m get_products_never_fetches [OF m, of example_world "example_session FLIPKART (Some 1)"
      FLIPKART "''t-shirt''" "''https://www.flipkart.com/search?q=t-shirt''"]
    by simp
qed





section \<open>Properties of the decision gate\<close>

lemma process_card_other_site:
  assumes "website_name self \<noteq> Some FLIPKART"
  shows "snd (process_card w cfg self product_soup) = self \<and>
         (fst (process_card w cfg self product_soup) = Inr None \<or>
          isl (fst (process_card w cfg self product_soup)))"
  using assms
  by (simp add: process_card_def get_flipkart_data_def Let_def
      split: sum.splits bool.splits option.splits)

lemma extract_cards_other_site:
  assumes "website_name self \<noteq> Some FLIPKART"
  shows "snd (extract_cards w cfg cards self products) = self \<and>
         (fst (extract_cards w cfg cards self products) = Inr products \<or>
          isl (fst (extract_cards w cfg cards self products)))"
proof (induction cards)
  case Nil
  then show ?case by simp
next
  case (Cons c cards)
  obtain r s where pc: "process_card w cfg self c = (r, s)" by (cases "process_card w cfg self c")
  from process_card_other_site[OF assms, of w cfg c] pc
  have s: "s = self" and r: "r = Inr None \<or> isl r" by simp_all
  show ?case using Cons pc s r by (cases r) auto
qed

text \<open>
  Claim C6 (code defect). \<^verbatim>\<open>get_flipkart_data\<close> returns \<^verbatim>\<open>None\<close> for every site other than
  FLIPKART, and the card loop skips a card for which it returns \<^verbatim>\<open>None\<close>. In a session of
  any other site no card reaches the classifier: \<^verbatim>\<open>extract_products_by_website\<close> returns
  the empty list or raises, and the session's URL list stays as it was.
\<close>

theorem other_sites_accept_nothing:
  assumes "website_name self \<noteq> Some FLIPKART"
  shows "(fst (extract_products_by_website w cfg self main_container) = Inr [] \<or>
          isl (fst (extract_products_by_website w cfg self main_container))) \<and>
         snd (extract_products_by_website w cfg self main_container) = self"
  using extract_cards_other_site[OF assms, of w cfg _ "[]"]
  by (auto simp: extract_products_by_website_def Let_def split: sum.splits)

theorem other_sites_accept_nothing_witness:
  "is_product_valid example_world example_config (example_session AMAZON (Some 1))
     (select_one (amazon_card (rupee @ ''1,999'') (rupee @ ''1,499'') ''/Cotton-T-Shirt/dp/B000000000/ref=sr_1_1'')
        ''span.a-price.a-text-price span.a-offscreen'')
     (select_one (amazon_card (rupee @ ''1,999'') (rupee @ ''1,499'') ''/Cotton-T-Shirt/dp/B000000000/ref=sr_1_1'')
        ''a.a-link-normal'') = Inr True \<and>
   extract_products_by_website example_world example_config (example_session AMAZON (Some 1))
     (Tag [] [] [] [(''div.a-section.a-spacing-base'',
        [amazon_card (rupee @ ''1,999'') (rupee @ ''1,499'') ''/Cotton-T-Shirt/dp/B000000000/ref=sr_1_1''])]) =
     (Inr [], example_session AMAZON (Some 1))"
proof
  show "is_product_valid example_world example_config (example_session AMAZON (Some 1))
     (select_one (amazon_card (rupee @ ''1,999'') (rupee @ ''1,499'') ''/Cotton-T-Shirt/dp/B000000000/ref=sr_1_1'')
        ''span.a-price.a-text-price span.a-offscreen'')
     (select_one (amazon_card (rupee @ ''1,999'') (rupee @ ''1,499'') ''/Cotton-T-Shirt/dp/B000000000/ref=sr_1_1'')
        ''a.a-link-normal'') = Inr True"
    by code_simp
  let ?mc = "Tag [] [] [] [(''div.a-section.a-spacing-base'',
        [amazon_card (rupee @ ''1,999'') (rupee @ ''1,499'') ''/Cotton-T-Shirt/dp/B000000000/ref=sr_1_1''])]"
  have w: "website_name (example_session AMAZON (Some 1)) \<noteq> Some FLIPKART"
    by (simp add: example_session_def)
  have "\<not> isl (fst (extract_products_by_website example_world example_config
      (example_session AMAZON (Some 1)) ?mc))"
    by code_simp
  then show "extract_products_by_website example_world example_config (example_session AMAZON (Some 1)) ?mc =
     (Inr [], example_session AMAZON (Some 1))"
    using other_sites_accept_nothing [OF w, of example_world example_config ?mc]
    by (simp add: prod_eq_iff)
qed

section \<open>Properties of the session's URL list\<close>

lemma same_session_refl: "same_session s s"
  unfolding same_session_def by (rule exI[of _ "driver s"]) simp

lemma same_session_trans: "same_session a b \<Longrightarrow> same_session b c \<Longrightarrow> same_session a c"
  unfolding same_session_def by auto

lemma same_session_driver: "same_session s (s\<lparr>driver := d\<rparr>)"
  unfolding same_session_def by blast

lemma same_session_fields:
  "same_session s s' \<Longrightarrow>
     product_urls s' = product_urls s \<and> website_name s' = website_name s \<and>
     category s' = category s \<and> redis s' = redis s"
  unfolding same_session_def by auto

lemma retry_loop_invariant:
  assumes step: "\<And>s. R s (snd (func s))" and refl: "\<And>s. R s s"
    and trans: "\<And>a b c. R a b \<Longrightarrow> R b c \<Longrightarrow> R a c"
  shows "R s (final_state (retry_loop m func rcs s n ws))"
proof (induction rcs arbitrary: s n ws)
  case Nil
  then show ?case by (simp add: refl)
next
  case (Cons rc rcs)
  obtain r s' where f: "func s = (r, s')" by (cases "func s")
  have r1: "R s s'" using step[of s] f by simp
  show ?case
  proof (cases r)
    case (Inr v)
    then show ?thesis using f r1 by simp
  next
    case (Inl e)
    show ?thesis
    proof (cases "rc < m - 1")
      case True
      have "R s' (final_state (retry_loop m func rcs s' (Suc n) (ws @ [2 ^ nat rc])))"
        by (rule Cons.IH)
      then show ?thesis using Inl f True r1 trans by auto
    next
      case False
      then show ?thesis using Inl f r1 by simp
    qed
  qed
qed

lemma fetch_body_same_session:
  "same_session self (snd (fetch_product_container_body w cfg url type self))"
  by (auto simp: fetch_product_container_body_def same_session_refl same_session_driver
      split: option.splits sum.splits prod.splits)

lemma fetch_same_session:
  "same_session self (snd (fetch_product_container w cfg self url type))"
  unfolding fetch_product_container_def Let_def retry_def
  using retry_loop_invariant[of same_session "fetch_product_container_body w cfg url type",
      OF fetch_body_same_session same_session_refl same_session_trans]
  by simp

lemma fetch_same_sessionD:
  "fetch_product_container w cfg self url type = (r, s') \<Longrightarrow> same_session self s'"
  using fetch_same_session[of self w cfg url type] by simp

lemma get_flipkart_same_session:
  "same_session self (snd (get_flipkart_data w cfg self url))"
  by (auto simp: get_flipkart_data_def same_session_refl dest: fetch_same_sessionD
      split: option.splits sum.splits prod.splits)

lemma get_flipkart_Some:
  "fst (get_flipkart_data w cfg self url) = Inr (Some t) \<Longrightarrow> website_name self = Some FLIPKART"
  by (auto simp: get_flipkart_data_def split: option.splits sum.splits prod.splits if_splits)

lemma format_same_session:
  "same_session s s' \<Longrightarrow>
     format_extracted_data w cfg s' selector d = format_extracted_data w cfg s selector d"
proof -
  assume "same_session s s'"
  then have ws: "website_name s' = website_name s" by (auto simp: same_session_def)
  show ?thesis unfolding format_extracted_data_def ws ..
qed

lemma is_product_valid_True:
  assumes "is_product_valid w cfg self price url = Inr True"
  shows "\<exists>url_tag href u. url = Some url_tag \<and> subscript (attrs url_tag) ''href'' = Inr href \<and>
           format_extracted_data w cfg self ''product_url'' (Some href) = Inr u \<and>
           url_of_pyval u \<notin> set (product_urls self)"
  using assms
  by (auto simp: is_product_valid_def split: option.splits sum.splits pyval.splits if_splits)

lemma key_in_fst_image: "(k, b) \<in> set d \<Longrightarrow> k \<in> fst ` set d"
  by force

lemma map_of_replace:
  "map_of (map (\<lambda>(a, b). if a = k then (a, v) else (a, b)) d) k' =
     (if k' = k then (if k \<in> fst ` set d then Some v else None) else map_of d k')"
proof (induction d)
  case Nil
  then show ?case by simp
next
  case (Cons x d)
  obtain a b where x: "x = (a, b)" by (cases x)
  show ?case using Cons x by (cases "a = k") (auto simp: key_in_fst_image)
qed

lemma dict_get_dict_set:
  "dict_get (dict_set d k v) k' = (if k' = k then v else dict_get d k')"
proof (cases "k \<in> fst ` set d")
  case True
  then show ?thesis by (simp add: dict_get_def dict_set_def map_of_replace)
next
  case False
  then have "map_of d k = None" by (simp add: map_of_eq_None_iff)
  then show ?thesis using False
    by (auto simp: dict_get_def dict_set_def map_add_def split: option.splits)
qed

lemma subscript_key: "subscript d k = Inr v \<Longrightarrow> k \<in> fst ` set d"
  by (auto simp: subscript_def split: option.splits dest: map_of_SomeD intro: key_in_fst_image)

lemma detail_value_url:
  "detail_value w cfg self product_url ''product_url'' elements =
     (case attr_of product_url ''href'' of
        Inl e \<Rightarrow> Inl e
      | Inr href \<Rightarrow> format_extracted_data w cfg self ''product_url'' (Some href))"
  by (simp add: detail_value_def)

lemma fill_sets_url:
  assumes site: "website_name self = Some FLIPKART"
    and href: "attr_of product_url ''href'' = Inr href"
    and fmt: "format_extracted_data w cfg self ''product_url'' (Some href) = Inr u"
  shows "fill_product_details w cfg self ps fs product_url items pd0 = Inr pd \<Longrightarrow>
         ''product_url'' \<in> fst ` set items \<or> dict_get pd0 ''product_url'' = u \<Longrightarrow>
         dict_get pd ''product_url'' = u"
proof (induction items arbitrary: pd0)
  case Nil
  then show ?case by simp
next
  case (Cons item items)
  obtain key selectors where item: "item = (key, selectors)" by (cases item)
  let ?elements = "select_one fs (join '' ,'' selectors)"
  show ?case
  proof (cases "?elements = None \<and> key \<noteq> ''product_url''")
    case True
    then have "fill_product_details w cfg self ps fs product_url items pd0 = Inr pd"
      using Cons.prems(1) item site by (simp add: Let_def)
    moreover have "''product_url'' \<in> fst ` set items \<or> dict_get pd0 ''product_url'' = u"
      using Cons.prems(2) item True by auto
    ultimately show ?thesis by (rule Cons.IH)
  next
    case False
    then obtain v where dv: "detail_value w cfg self product_url key ?elements = Inr v"
      and rest: "fill_product_details w cfg self ps fs product_url items (dict_set pd0 key v) = Inr pd"
      using Cons.prems(1) item site by (auto simp: Let_def split: sum.splits)
    have "''product_url'' \<in> fst ` set items \<or> dict_get (dict_set pd0 key v) ''product_url'' = u"
    proof (cases "key = ''product_url''")
      case True
      then have "v = u" using dv href fmt by (simp add: detail_value_url)
      then show ?thesis using True by (simp add: dict_get_dict_set)
    next
      case False
      then show ?thesis using Cons.prems(2) item by (auto simp: dict_get_dict_set)
    qed
    with rest show ?thesis by (rule Cons.IH)
  qed
qed

lemma process_card_urls:
  assumes "process_card w cfg self product_soup = (r, self')"
  shows "(case r of
            Inr (Some pd) \<Rightarrow>
              product_url_of pd \<notin> set (product_urls self) \<and>
              product_urls self' = product_urls self @ [product_url_of pd]
          | _ \<Rightarrow> product_urls self' = product_urls self)"
proof -
  note defs = process_card_def Let_def
  show ?thesis
  proof (cases "subscript_opt (PRODUCT_DETAILS cfg) (website_name self)")
    case (Inl e)
    then show ?thesis using assms by (auto simp: defs)
  next
    case details: (Inr details)
    show ?thesis
    proof (cases "subscript details ''product_url''")
      case (Inl e)
      then show ?thesis using assms details by (auto simp: defs)
    next
      case us: (Inr url_selectors)
      show ?thesis
      proof (cases "subscript details ''product_price''")
        case (Inl e)
        then show ?thesis using assms details us by (auto simp: defs)
      next
        case prs: (Inr price_selectors)
        let ?product_url = "select_one product_soup (join '' ,'' url_selectors)"
        let ?product_price = "select_one product_soup (join '' ,'' price_selectors)"
        show ?thesis
        proof (cases "is_product_valid w cfg self ?product_price ?product_url = Inr True")
          case False
          then show ?thesis using assms details us prs
            by (auto simp: defs split: sum.splits bool.splits)
        next
          case valid: True
          from is_product_valid_True[OF valid] obtain url_tag href u where
            ut: "?product_url = Some url_tag" and hr: "subscript (attrs url_tag) ''href'' = Inr href"
            and fmt: "format_extracted_data w cfg self ''product_url'' (Some href) = Inr u"
            and new: "url_of_pyval u \<notin> set (product_urls self)" by blast
          have ao: "attr_of ?product_url ''href'' = Inr href" using ut hr by (simp add: attr_of_def)
          obtain fr self1 where gf: "get_flipkart_data w cfg self ?product_url = (fr, self1)"
            by (cases "get_flipkart_data w cfg self ?product_url")
          have ss: "same_session self self1"
            using get_flipkart_same_session[of self w cfg ?product_url] gf by simp
          have pu1: "product_urls self1 = product_urls self"
            using same_session_fields[OF ss] by simp
          have fmt1: "format_extracted_data w cfg self1 ''product_url'' (Some href) = Inr u"
            by (simp add: format_same_session[OF ss] fmt)
          show ?thesis
          proof (cases fr)
            case (Inl e)
            then show ?thesis using assms details us prs valid gf pu1 by (auto simp: defs)
          next
            case frr: (Inr fo)
            show ?thesis
            proof (cases fo)
              case None
              then show ?thesis using assms details us prs valid gf pu1 frr by (auto simp: defs)
            next
              case (Some fs)
              have site: "website_name self = Some FLIPKART"
                using get_flipkart_Some[of w cfg self ?product_url fs] gf frr Some by simp
              have site1: "website_name self1 = Some FLIPKART"
                using same_session_fields[OF ss] site by simp
              show ?thesis
              proof (cases "fill_product_details w cfg self1 product_soup fs ?product_url details []")
                case (Inl e)
                then show ?thesis using assms details us prs valid gf pu1 frr Some by (auto simp: defs)
              next
                case fill: (Inr pd)
                have "dict_get pd ''product_url'' = u"
                  using fill_sets_url[OF site1 ao fmt1 fill] subscript_key[OF us] by simp
                then have puo: "product_url_of pd = url_of_pyval u" by (simp add: product_url_of_def)
                show ?thesis using assms details us prs valid gf pu1 frr Some fill ao fmt1 puo new
                  by (auto simp: defs split: sum.splits if_splits)
              qed
            qed
          qed
        qed
      qed
    qed
  qed
qed

lemma extract_cards_urls:
  "extract_cards w cfg cards self acc = (r, self') \<Longrightarrow>
   \<exists>new. (\<forall>ps. r = Inr ps \<longrightarrow> ps = acc @ new) \<and>
         product_urls self' = product_urls self @ map product_url_of new \<and>
         (distinct (product_urls self) \<longrightarrow> distinct (product_urls self'))"
proof (induction cards arbitrary: self acc)
  case Nil
  then have "r = Inr acc" and "self' = self" by simp_all
  then show ?case by (intro exI[of _ "[]"]) simp
next
  case (Cons card cards)
  obtain r1 s1 where pc: "process_card w cfg self card = (r1, s1)"
    by (cases "process_card w cfg self card")
  note urls = process_card_urls[OF pc]
  show ?case
  proof (cases r1)
    case (Inl e)
    then have "r = Inl e" and "self' = s1" using Cons.prems pc by simp_all
    moreover have "product_urls s1 = product_urls self" using urls Inl by simp
    ultimately show ?thesis by (intro exI[of _ "[]"]) simp
  next
    case (Inr o1)
    show ?thesis
    proof (cases o1)
      case None
      then have "extract_cards w cfg cards s1 acc = (r, self')"
        using Cons.prems pc Inr by simp
      from Cons.IH[OF this] obtain new where
        n: "\<forall>ps. r = Inr ps \<longrightarrow> ps = acc @ new"
           "product_urls self' = product_urls s1 @ map product_url_of new"
           "distinct (product_urls s1) \<longrightarrow> distinct (product_urls self')" by blast
      have "product_urls s1 = product_urls self" using urls Inr None by simp
      with n show ?thesis by (intro exI[of _ new]) simp
    next
      case (Some pd)
      then have "extract_cards w cfg cards s1 (acc @ [pd]) = (r, self')"
        using Cons.prems pc Inr by simp
      from Cons.IH[OF this] obtain new where
        n: "\<forall>ps. r = Inr ps \<longrightarrow> ps = (acc @ [pd]) @ new"
           "product_urls self' = product_urls s1 @ map product_url_of new"
           "distinct (product_urls s1) \<longrightarrow> distinct (product_urls self')" by blast
      have u: "product_url_of pd \<notin> set (product_urls self)"
        and a: "product_urls s1 = product_urls self @ [product_url_of pd]"
        using urls Inr Some by simp_all
      from n u a show ?thesis by (intro exI[of _ "pd # new"]) simp
    qed
  qed
qed

text \<open>
  Claim C9. The session's URL list has no repetition, and stays so whatever a page
  holds: \<^verbatim>\<open>extract_products_by_website\<close> started with a list without repetition ends
  with one, also when it raises. When it returns, it has appended to the list exactly the
  URLs of the products it returns, in order, and these are pairwise distinct and distinct
  from the URLs accepted on earlier pages. For one card: a card that is accepted has a URL
  that was not in the list, and that URL is appended to the list.
\<close>

theorem session_urls_distinct:
  assumes "extract_products_by_website w cfg self main_container = (r, self')"
    and "distinct (product_urls self)"
  shows "distinct (product_urls self') \<and>
         (\<forall>products. r = Inr products \<longrightarrow>
            product_urls self' = product_urls self @ map product_url_of products \<and>
            distinct (map product_url_of products)) \<and>
         (\<forall>card pd self1. process_card w cfg self card = (Inr (Some pd), self1) \<longrightarrow>
            product_url_of pd \<notin> set (product_urls self) \<and>
            product_urls self1 = product_urls self @ [product_url_of pd])"
proof -
  have card: "\<forall>card pd self1. process_card w cfg self card = (Inr (Some pd), self1) \<longrightarrow>
            product_url_of pd \<notin> set (product_urls self) \<and>
            product_urls self1 = product_urls self @ [product_url_of pd]"
    using process_card_urls by fastforce
  have page: "distinct (product_urls self') \<and>
         (\<forall>products. r = Inr products \<longrightarrow>
            product_urls self' = product_urls self @ map product_url_of products \<and>
            distinct (map product_url_of products))"
  proof (cases "subscript_opt (PRODUCT_CARDS cfg) (website_name self)")
    case (Inl e)
    then show ?thesis using assms by (auto simp: extract_products_by_website_def)
  next
    case (Inr cards_selector)
    show ?thesis
    proof (cases "select main_container cards_selector = []")
      case True
      then show ?thesis using assms Inr by (auto simp: extract_products_by_website_def)
    next
      case False
      then have "extract_cards w cfg (select main_container cards_selector) self [] = (r, self')"
        using assms(1) Inr by (simp add: extract_products_by_website_def)
      from extract_cards_urls[OF this] obtain new where
        n: "\<forall>ps. r = Inr ps \<longrightarrow> ps = [] @ new"
           "product_urls self' = product_urls self @ map product_url_of new"
           "distinct (product_urls self) \<longrightarrow> distinct (product_urls self')" by blast
      then have d: "distinct (product_urls self @ map product_url_of new)" using assms(2) by simp
      show ?thesis using n d assms(2) by auto
    qed
  qed
  from page card show ?thesis by blast
qed

theorem session_urls_distinct_witness:
  "extract_products_by_website example_world example_config (example_session FLIPKART (Some 1))
     (Tag [] [] [] [(''div._1AtVbE div._2kHMtA'',
        [flipkart_card (rupee @ ''1,999'') ''/t-shirt/p/itm1?pid=TSH1'',
         flipkart_card (rupee @ ''1,999'') ''/t-shirt/p/itm1?pid=TSH1&lid=2'',
         flipkart_card (rupee @ ''899'') ''/t-shirt/p/itm5?pid=TSH5''])]) =
   (Inr [[(''product_price'', VInt 1999), (''product_name'', VStr ''Cotton T-Shirt''),
          (''product_url'', VStr ''https://www.flipkart.com/t-shirt/p/itm1/?affid=admitad&affExtParam1=298614''),
          (''product_discount'', VInt 1499)],
         [(''product_price'', VInt 899), (''product_name'', VStr ''Printed T-Shirt''),
          (''product_url'', VStr ''https://www.flipkart.com/t-shirt/p/itm5/?affid=admitad&affExtParam1=298614''),
          (''product_discount'', VInt 499)]],
    (example_session FLIPKART (Some 1))
      \<lparr>product_urls :=
         [Some ''https://www.flipkart.com/t-shirt/p/itm1/?affid=admitad&affExtParam1=298614'',
          Some ''https://www.flipkart.com/t-shirt/p/itm5/?affid=admitad&affExtParam1=298614''],
       driver := ''https://www.flipkart.com/t-shirt/p/itm5''\<rparr>) \<and>
   distinct
     [Some ''https://www.flipkart.com/t-shirt/p/itm1/?affid=admitad&affExtParam1=298614'',
      Some ''https://www.flipkart.com/t-shirt/p/itm5/?affid=admitad&affExtParam1=298614'']"
proof -
  let ?s = "example_session FLIPKART (Some 1)"
  let ?mc = "Tag [] [] [] [(''div._1AtVbE div._2kHMtA'',
        [flipkart_card (rupee @ ''1,999'') ''/t-shirt/p/itm1?pid=TSH1'',
         flipkart_card (rupee @ ''1,999'') ''/t-shirt/p/itm1?pid=TSH1&lid=2'',
         flipkart_card (rupee @ ''899'') ''/t-shirt/p/itm5?pid=TSH5''])]"
  let ?ps = "[[(''product_price'', VInt 1999), (''product_name'', VStr ''Cotton T-Shirt''),
          (''product_url'', VStr ''https://www.flipkart.com/t-shirt/p/itm1/?affid=admitad&affExtParam1=298614''),
          (''product_discount'', VInt 1499)],
         [(''product_price'', VInt 899), (''product_name'', VStr ''Printed T-Shirt''),
          (''product_url'', VStr ''https://www.flipkart.com/t-shirt/p/itm5/?affid=admitad&affExtParam1=298614''),
          (''product_discount'', VInt 499)]] :: int product list"
  let ?s' = "?s\<lparr>product_urls :=
         [Some ''https://www.flipkart.com/t-shirt/p/itm1/?affid=admitad&affExtParam1=298614'',
          Some ''https://www.flipkart.com/t-shirt/p/itm5/?affid=admitad&affExtParam1=298614''],
       driver := ''https://www.flipkart.com/t-shirt/p/itm5''\<rparr>"
  have run: "extract_products_by_website example_world example_config ?s ?mc = (Inr ?ps, ?s')"
    by code_simp
  have d0: "distinct (product_urls ?s)" by (simp add: example_session_def init_def)
  have "distinct (product_urls ?s')"
    using session_urls_distinct [OF run d0] by blast
  then show ?thesis using run by simp
qed

section \<open>Properties of the price ceiling\<close>

lemma process_card_via_validity:
  "(card_is_valid w cfg self product_soup = Inr False \<longrightarrow> process_card w cfg self product_soup = (Inr None, self)) \<and>
   (\<forall>pd self'. process_card w cfg self product_soup = (Inr (Some pd), self') \<longrightarrow>
      card_is_valid w cfg self product_soup = Inr True)"
  by (auto simp: card_is_valid_def process_card_def Let_def split: sum.splits bool.splits)

text \<open>
  Claim C5, as amended. The ceiling check of a card reads the card's listed price, the
  element that the \<^verbatim>\<open>product_price\<close> selectors find on the card, and no other element
  of it. For a card whose URL is neither in the session's list nor in the cache: the card
  is valid exactly when its listed price is at most \<^verbatim>\<open>PRICE_LIMITS[category]\<close>; with a
  listed price above the ceiling the card is skipped, and a card that is accepted has a
  listed price within the ceiling; with a listed price within the ceiling the card is
  accepted when its product page is fetched, its record is complete and the classifier
  answers \<^verbatim>\<open>Best Deal\<close>; and a card with the same link and the same listed-price element
  gets the same verdict, whatever its other elements, the discount price among them.
\<close>

theorem price_ceiling_on_listed_price:
  assumes "subscript_opt (PRODUCT_DETAILS cfg) (website_name self) = Inr details"
    and "subscript details ''product_url'' = Inr url_selectors"
    and "subscript details ''product_price'' = Inr price_selectors"
    and "select_one product_soup (join '' ,'' url_selectors) = Some url_tag"
    and "select_one product_soup (join '' ,'' price_selectors) = Some price_tag"
    and "subscript (attrs url_tag) ''href'' = Inr href"
    and "format_extracted_data w cfg self ''product_price'' (Some (get_text price_tag)) = Inr (VInt p)"
    and "format_extracted_data w cfg self ''product_url'' (Some href) = Inr u"
    and "url_of_pyval u \<notin> set (product_urls self)"
    and "subscript_opt (PRICE_LIMITS cfg) (category self) = Inr limit"
    and "is_member (redis self) (clock w) ''product_url_cache'' (url_of_pyval u) \<noteq> Some True"
  shows "card_is_valid w cfg self product_soup = Inr (p \<le> limit) \<and>
         (limit < p \<longrightarrow> process_card w cfg self product_soup = (Inr None, self)) \<and>
         (\<forall>pd self'. process_card w cfg self product_soup = (Inr (Some pd), self') \<longrightarrow> p \<le> limit) \<and>
         (p \<le> limit \<and>
          get_flipkart_data w cfg self (Some url_tag) = (Inr (Some page), self1) \<and>
          fill_product_details w cfg self1 product_soup page (Some url_tag) details [] = Inr pd \<and>
          \<not> list_ex (\<lambda>key. dict_get pd key = VNone) (REQUIRED_PRODUCT_KEYS cfg) \<and>
          predict_deal w pd = Inr ''Best Deal''
            \<longrightarrow> process_card w cfg self product_soup =
                  (Inr (Some pd), self1\<lparr>product_urls := product_urls self1 @ [url_of_pyval u]\<rparr>)) \<and>
         (\<forall>product_soup'. select_one product_soup' (join '' ,'' url_selectors) = Some url_tag \<and>
                  select_one product_soup' (join '' ,'' price_selectors) = Some price_tag
            \<longrightarrow> card_is_valid w cfg self product_soup' = Inr (p \<le> limit))"
proof -
  have valid: "is_product_valid w cfg self (Some price_tag) (Some url_tag) = Inr (p \<le> limit)"
    using assms(6-11) by (simp add: is_product_valid_def)
  have v: "card_is_valid w cfg self c = Inr (p \<le> limit)"
    if "select_one c (join '' ,'' url_selectors) = Some url_tag"
      and "select_one c (join '' ,'' price_selectors) = Some price_tag" for c
    using that assms(1-3) valid by (simp add: card_is_valid_def)
  have 1: "card_is_valid w cfg self product_soup = Inr (p \<le> limit)" by (rule v[OF assms(4,5)])
  have 2: "process_card w cfg self product_soup = (Inr None, self)" if "limit < p"
    using that 1 process_card_via_validity[of w cfg self product_soup] by simp
  have 3: "p \<le> limit" if "process_card w cfg self product_soup = (Inr (Some pd), self')" for pd self'
    using that 1 process_card_via_validity[of w cfg self product_soup] by auto
  have 4: "process_card w cfg self product_soup =
      (Inr (Some pd), self1\<lparr>product_urls := product_urls self1 @ [url_of_pyval u]\<rparr>)"
    if h: "p \<le> limit \<and>
          get_flipkart_data w cfg self (Some url_tag) = (Inr (Some page), self1) \<and>
          fill_product_details w cfg self1 product_soup page (Some url_tag) details [] = Inr pd \<and>
          \<not> list_ex (\<lambda>key. dict_get pd key = VNone) (REQUIRED_PRODUCT_KEYS cfg) \<and>
          predict_deal w pd = Inr ''Best Deal''"
  proof -
    have ss: "same_session self self1"
      using get_flipkart_same_session[of self w cfg "Some url_tag"] h by simp
    have fmt1: "format_extracted_data w cfg self1 ''product_url'' (Some href) = Inr u"
      by (simp add: format_same_session[OF ss] assms(8))
    have ao: "attr_of (Some url_tag) ''href'' = Inr href" using assms(6) by (simp add: attr_of_def)
    have ok: "is_product_valid w cfg self (Some price_tag) (Some url_tag) = Inr True"
      using valid h by simp
    show ?thesis
      using assms(1-5) ok h fmt1 ao by (simp add: process_card_def)
  qed
  show ?thesis using 1 2 3 4 v by blast
qed


theorem price_ceiling_on_listed_price_witness:
  "card_is_valid example_world example_config (example_session AMAZON None)
     (amazon_card (rupee @ ''2,500'') (rupee @ ''1,499'') ''/dp/B000000000'') = Inr True \<and>
   card_is_valid example_world example_config (example_session AMAZON None)
     (amazon_card (rupee @ ''2,501'') (rupee @ ''1,499'') ''/dp/B000000000'') = Inr False \<and>
   process_card example_world example_config (example_session AMAZON None)
     (amazon_card (rupee @ ''2,501'') (rupee @ ''1,499'') ''/dp/B000000000'') =
     (Inr None, example_session AMAZON None) \<and>
   process_card example_world example_config (example_session FLIPKART (Some 1))
     (flipkart_card (rupee @ ''2,500'') ''/t-shirt/p/itm6?pid=TSH6'') =
     (Inr (Some [(''product_price'', VInt 2500), (''product_name'', VStr ''Linen T-Shirt''),
                 (''product_url'', VStr ''https://www.flipkart.com/t-shirt/p/itm6/?affid=admitad&affExtParam1=298614''),
                 (''product_discount'', VInt 1499)]),
      (example_session FLIPKART (Some 1))
        \<lparr>driver := ''https://www.flipkart.com/t-shirt/p/itm6'',
         product_urls := [Some ''https://www.flipkart.com/t-shirt/p/itm6/?affid=admitad&affExtParam1=298614'']\<rparr>)"
proof -
  let ?w = example_world
  let ?cfg = example_config
  let ?a = "example_session AMAZON None"
  let ?ad = "[(''product_price'', [''span.a-price.a-text-price span.a-offscreen'']),
       (''product_name'', [''h2.a-size-base-plus.a-spacing-none'']),
       (''product_url'', [''a.a-link-normal'']),
       (''product_discount'', [''span.a-price-whole''])]"
  let ?ua = "VStr ''https://www.amazon.in/dp/B000000000/?tag=aladdinloot3-21'' :: int pyval"
  have a1: "subscript_opt (PRODUCT_DETAILS ?cfg) (website_name ?a) = Inr ?ad" by code_simp
  have a2: "subscript ?ad ''product_url'' = Inr [''a.a-link-normal'']" by code_simp
  have a3: "subscript ?ad ''product_price'' = Inr [''span.a-price.a-text-price span.a-offscreen'']"
    by code_simp
  have a4: "select_one (amazon_card (rupee @ ''2,500'') (rupee @ ''1,499'') ''/dp/B000000000'')
      (join '' ,'' [''a.a-link-normal'']) = Some (link ''/dp/B000000000'')" by code_simp
  have a5: "select_one (amazon_card (rupee @ ''2,500'') (rupee @ ''1,499'') ''/dp/B000000000'')
      (join '' ,'' [''span.a-price.a-text-price span.a-offscreen'']) =
      Some (text_element (rupee @ ''2,500''))" by code_simp
  have b4: "select_one (amazon_card (rupee @ ''2,501'') (rupee @ ''1,499'') ''/dp/B000000000'')
      (join '' ,'' [''a.a-link-normal'']) = Some (link ''/dp/B000000000'')" by code_simp
  have b5: "select_one (amazon_card (rupee @ ''2,501'') (rupee @ ''1,499'') ''/dp/B000000000'')
      (join '' ,'' [''span.a-price.a-text-price span.a-offscreen'']) =
      Some (text_element (rupee @ ''2,501''))" by code_simp
  have a6: "subscript (attrs (link ''/dp/B000000000'')) ''href'' = Inr ''/dp/B000000000''"
    by code_simp
  have a7: "format_extracted_data ?w ?cfg ?a ''product_price''
      (Some (get_text (text_element (rupee @ ''2,500'')))) = Inr (VInt 2500)" by code_simp
  have b7: "format_extracted_data ?w ?cfg ?a ''product_price''
      (Some (get_text (text_element (rupee @ ''2,501'')))) = Inr (VInt 2501)" by code_simp
  have a8: "format_extracted_data ?w ?cfg ?a ''product_url'' (Some ''/dp/B000000000'') = Inr ?ua"
    by code_simp
  have a9: "url_of_pyval ?ua \<notin> set (product_urls ?a)"
    by (simp add: example_session_def init_def)
  have a10: "subscript_opt (PRICE_LIMITS ?cfg) (category ?a) = Inr 2500" by code_simp
  have "is_member (redis ?a) (clock ?w) ''product_url_cache'' (url_of_pyval ?ua) = Some False"
    by code_simp
  then have a11: "is_member (redis ?a) (clock ?w) ''product_url_cache'' (url_of_pyval ?ua) \<noteq> Some True"
    by simp
  have A: "card_is_valid ?w ?cfg ?a
     (amazon_card (rupee @ ''2,500'') (rupee @ ''1,499'') ''/dp/B000000000'') = Inr True"
    using price_ceiling_on_listed_price [OF a1 a2 a3 a4 a5 a6 a7 a8 a9 a10 a11] by simp
  have B: "card_is_valid ?w ?cfg ?a
     (amazon_card (rupee @ ''2,501'') (rupee @ ''1,499'') ''/dp/B000000000'') = Inr False \<and>
   process_card ?w ?cfg ?a
     (amazon_card (rupee @ ''2,501'') (rupee @ ''1,499'') ''/dp/B000000000'') = (Inr None, ?a)"
    using price_ceiling_on_listed_price [OF a1 a2 a3 b4 b5 a6 b7 a8 a9 a10 a11] by simp
  let ?f = "example_session FLIPKART (Some 1)"
  let ?fd = "[(''product_price'', [''div.yRaY8j'']),
       (''product_name'', [''span.VU-ZEz'']),
       (''product_url'', [''a.CGtC98'']),
       (''product_discount'', [''div.Nx9bqj''])]"
  let ?fc = "flipkart_card (rupee @ ''2,500'') ''/t-shirt/p/itm6?pid=TSH6''"
  let ?uf = "VStr ''https://www.flipkart.com/t-shirt/p/itm6/?affid=admitad&affExtParam1=298614'' :: int pyval"
  let ?page = "Tag [] []
      [(''div.yRaY8j'', text_element (rupee @ ''2,500'')),
       (''div.Nx9bqj'', text_element (rupee @ ''1,499'')),
       (''span.VU-ZEz'', text_element ''Linen T-Shirt'')] []"
  let ?f1 = "?f\<lparr>driver := ''https://www.flipkart.com/t-shirt/p/itm6''\<rparr>"
  let ?pd = "[(''product_price'', VInt 2500), (''product_name'', VStr ''Linen T-Shirt''),
              (''product_url'', ?uf), (''product_discount'', VInt 1499)] :: int product"
  have f1: "subscript_opt (PRODUCT_DETAILS ?cfg) (website_name ?f) = Inr ?fd" by code_simp
  have f2: "subscript ?fd ''product_url'' = Inr [''a.CGtC98'']" by code_simp
  have f3: "subscript ?fd ''product_price'' = Inr [''div.yRaY8j'']" by code_simp
  have f4: "select_one ?fc (join '' ,'' [''a.CGtC98'']) = Some (link ''/t-shirt/p/itm6?pid=TSH6'')"
    by code_simp
  have f5: "select_one ?fc (join '' ,'' [''div.yRaY8j'']) = Some (text_element (rupee @ ''2,500''))"
    by code_simp
  have f6: "subscript (attrs (link ''/t-shirt/p/itm6?pid=TSH6'')) ''href'' = Inr ''/t-shirt/p/itm6?pid=TSH6''"
    by code_simp
  have f7: "format_extracted_data ?w ?cfg ?f ''product_price''
      (Some (get_text (text_element (rupee @ ''2,500'')))) = Inr (VInt 2500)" by code_simp
  have f8: "format_extracted_data ?w ?cfg ?f ''product_url'' (Some ''/t-shirt/p/itm6?pid=TSH6'') = Inr ?uf"
    by code_simp
  have f9: "url_of_pyval ?uf \<notin> set (product_urls ?f)"
    by (simp add: example_session_def init_def)
  have f10: "subscript_opt (PRICE_LIMITS ?cfg) (category ?f) = Inr 2500" by code_simp
  have "is_member (redis ?f) (clock ?w) ''product_url_cache'' (url_of_pyval ?uf) = Some False"
    by code_simp
  then have f11: "is_member (redis ?f) (clock ?w) ''product_url_cache'' (url_of_pyval ?uf) \<noteq> Some True"
    by simp
  have g1: "get_flipkart_data ?w ?cfg ?f (Some (link ''/t-shirt/p/itm6?pid=TSH6'')) =
      (Inr (Some ?page), ?f1)" by code_simp
  have g2: "fill_product_details ?w ?cfg ?f1 ?fc ?page (Some (link ''/t-shirt/p/itm6?pid=TSH6''))
      ?fd [] = Inr ?pd" by code_simp
  have g3: "\<not> list_ex (\<lambda>key. dict_get ?pd key = VNone) (REQUIRED_PRODUCT_KEYS ?cfg)"
    by code_simp
  have g4: "predict_deal ?w ?pd = Inr ''Best Deal''" by (simp add: example_world_def)
  have C: "process_card ?w ?cfg ?f ?fc =
      (Inr (Some ?pd), ?f1\<lparr>product_urls := product_urls ?f1 @ [url_of_pyval ?uf]\<rparr>)"
    using price_ceiling_on_listed_price [OF f1 f2 f3 f4 f5 f6 f7 f8 f9 f10 f11,
        where page = ?page and ?self1.0 = ?f1 and pd = ?pd] g1 g2 g3 g4
    by simp
  have "?f1\<lparr>product_urls := product_urls ?f1 @ [url_of_pyval ?uf]\<rparr> =
        ?f\<lparr>driver := ''https://www.flipkart.com/t-shirt/p/itm6'',
           product_urls := [Some ''https://www.flipkart.com/t-shirt/p/itm6/?affid=admitad&affExtParam1=298614'']\<rparr>"
    by (simp add: example_session_def init_def url_of_pyval_def)
  with A B C show ?thesis by simp
qed

theorem price_ceiling_discount_counterexample:
  "subscript_opt (PRODUCT_DETAILS example_config) (website_name (example_session AMAZON None)) =
     Inr [(''product_price'', [''span.a-price.a-text-price span.a-offscreen'']),
       (''product_name'', [''h2.a-size-base-plus.a-spacing-none'']),
       (''product_url'', [''a.a-link-normal'']),
       (''product_discount'', [''span.a-price-whole''])] \<and>
   fill_product_details example_world example_config (example_session AMAZON None)
     (amazon_card (rupee @ ''3,000'') (rupee @ ''2,500'') ''/dp/B000000000'')
     (amazon_card (rupee @ ''3,000'') (rupee @ ''2,500'') ''/dp/B000000000'')
     (Some (link ''/dp/B000000000''))
     [(''product_price'', [''span.a-price.a-text-price span.a-offscreen'']),
       (''product_name'', [''h2.a-size-base-plus.a-spacing-none'']),
       (''product_url'', [''a.a-link-normal'']),
       (''product_discount'', [''span.a-price-whole''])] [] =
     Inr [(''product_price'', VInt 3000), (''product_name'', VStr ''Cotton T-Shirt''),
          (''product_url'', VStr ''https://www.amazon.in/dp/B000000000/?tag=aladdinloot3-21''),
          (''product_discount'', VInt 2500)] \<and>
   subscript_opt (PRICE_LIMITS example_config) (category (example_session AMAZON None)) = Inr 2500 \<and>
   card_is_valid example_world example_config (example_session AMAZON None)
     (amazon_card (rupee @ ''3,000'') (rupee @ ''2,500'') ''/dp/B000000000'') = Inr False \<and>
   process_card example_world example_config (example_session AMAZON None)
     (amazon_card (rupee @ ''3,000'') (rupee @ ''2,500'') ''/dp/B000000000'') =
     (Inr None, example_session AMAZON None) \<and>
   card_is_valid example_world example_config (example_session AMAZON None)
     (amazon_card (rupee @ ''2,500'') (rupee @ ''2,500'') ''/dp/B000000000'') = Inr True"
  by code_simp

section \<open>Properties of the cache key\<close>





























end
